theory Spec2Isabelle
  imports Main
begin

section \<open>Strings\<close>

text \<open>
  A Python \<open>str\<close> is modelled as a \<open>string\<close>; a \<open>char\<close> stands for the code point
  of the same number, so the model covers the stories, file contents and paths whose
  code points lie below 256. The pictographs that open the user-facing messages of
  \<open>app.py\<close> lie outside that range and are left out of the message literals; no branch of
  the program reads a message.
\<close>

definition nl :: char where
  "nl = CHR 0x0A"

text \<open>\<open>\s\<close> of \<open>re\<close> on a \<open>str\<close> pattern, and \<open>str.isspace\<close>: the white space below 256.\<close>

definition is_space :: "char \<Rightarrow> bool" where
  "is_space c \<longleftrightarrow> c \<in> set [CHR 0x09, CHR 0x0A, CHR 0x0B, CHR 0x0C, CHR 0x0D,
     CHR 0x1C, CHR 0x1D, CHR 0x1E, CHR 0x1F, CHR 0x20, CHR 0x85, CHR 0xA0]"

text \<open>\<open>str(n)\<close> for an integer.\<close>

fun digits :: "nat \<Rightarrow> string" where
  "digits n = (if n < 10 then [''0123456789'' ! n]
               else digits (n div 10) @ [''0123456789'' ! (n mod 10)])"

declare digits.simps [simp del]

definition str_int :: "int \<Rightarrow> string" where
  "str_int i = (if i < 0 then CHR ''-'' # digits (nat (- i)) else digits (nat i))"

text \<open>\<open>sep.join(xs)\<close>.\<close>

fun join :: "string \<Rightarrow> string list \<Rightarrow> string" where
  "join sep [] = []"
| "join sep [x] = x"
| "join sep (x # y # ys) = x @ sep @ join sep (y # ys)"

text \<open>\<open>s.startswith(p)\<close> and \<open>s.endswith(p)\<close>.\<close>

definition startswith :: "string \<Rightarrow> string \<Rightarrow> bool" where
  "startswith s p \<longleftrightarrow> take (length p) s = p"

definition endswith :: "string \<Rightarrow> string \<Rightarrow> bool" where
  "endswith s p \<longleftrightarrow> length p \<le> length s \<and> drop (length s - length p) s = p"

section \<open>The workflow object\<close>

text \<open>
  The statuses are the string constants of \<open>app.py\<close>: \<open>"initializing"\<close>, \<open>"pending"\<close>,
  \<open>"running"\<close>, \<open>"completed"\<close>, \<open>"failed"\<close>. A step dictionary has the keys \<open>name\<close>,
  \<open>status\<close>, \<open>message\<close>.
\<close>

datatype status = Initializing | Pending | Running | Completed | Failed

record step =
  name :: string
  status :: status
  message :: string

text \<open>The dictionary returned by \<open>run_script_with_timeout\<close>.\<close>

record proc_result =
  success :: bool
  returncode :: int
  stdout :: string
  stderr :: string

text \<open>
  What the validator's \<open>validate_jmx_file\<close> returns: a dictionary, of which the program
  reads \<open>.get('overall_status')\<close> only (\<open>None\<close> when the key is absent).
\<close>

record validation_result =
  overall_status :: "string option"

text \<open>The dictionary stored under \<open>results['teststeps_debug']\<close>.\<close>

record teststeps_debug =
  working_directory :: string
  output_directory_exists :: bool
  expected_files :: "string list"
  found_files :: "string list"
  actual_directory_contents :: "string list"

text \<open>The values stored in \<open>self.results\<close>.\<close>

datatype payload =
    Proc proc_result
  | Paths "string list"
  | Debug teststeps_debug
  | Validations "(string \<times> validation_result) list"

text \<open>
  \<open>AutomatedWorkflow\<close>. The field \<open>wf_status\<close> is \<open>self.status\<close> (the name \<open>status\<close> is
  the step's), \<open>validator\<close> tells whether \<open>self.validator\<close> is an object or \<open>None\<close>.
\<close>

record workflow =
  workflow_id :: string
  user_story :: string
  wf_status :: status
  current_step :: int
  steps :: "step list"
  results :: "string \<rightharpoonup> payload"
  target_url :: "string option"
  validator :: bool

text \<open>The module-level names bound by the guarded imports: a module object or \<open>None\<close>.\<close>

record globals =
  network_logger_module :: bool
  test_steps_module :: bool
  jmx_generator_module :: bool
  validation_module :: bool
  MODULE_ERRORS :: "string list"

definition MODULES_AVAILABLE :: "globals \<Rightarrow> bool" where
  "MODULES_AVAILABLE g \<longleftrightarrow>
     network_logger_module g \<and> test_steps_module g \<and> jmx_generator_module g \<and> validation_module g"

text \<open>
  \<open>__init__\<close>. The flag \<open>constructed\<close> tells whether \<open>JMXValidator()\<close> and
  \<open>JMeterExecutor()\<close> returned; when either raises, \<open>self.validator\<close> is \<open>None\<close>.
\<close>

definition init_steps :: "step list" where
  "init_steps =
     [\<lparr>name = ''AI Planner Analysis'', status = Pending, message = ''''\<rparr>,
      \<lparr>name = ''Network Logging'', status = Pending, message = ''''\<rparr>,
      \<lparr>name = ''Test Steps Generation'', status = Pending, message = ''''\<rparr>,
      \<lparr>name = ''JMX Script Creation'', status = Pending, message = ''''\<rparr>,
      \<lparr>name = ''JMX Validation'', status = Pending, message = ''''\<rparr>]"

definition init_workflow :: "globals \<Rightarrow> bool \<Rightarrow> string \<Rightarrow> string \<Rightarrow> workflow" where
  "init_workflow g constructed wid story =
     \<lparr>workflow_id = wid, user_story = story, wf_status = Initializing, current_step = 0,
      steps = init_steps, results = Map.empty, target_url = None,
      validator = (if MODULES_AVAILABLE g \<and> validation_module g then constructed else False)\<rparr>"

text \<open>\<open>update_step_status\<close>: the guard \<open>0 <= step_index < len(self.steps)\<close> and the three
  assignments.\<close>

definition update_step_status :: "workflow \<Rightarrow> int \<Rightarrow> status \<Rightarrow> string \<Rightarrow> workflow" where
  "update_step_status w step_index st msg =
     (if 0 \<le> step_index \<and> step_index < int (length (steps w))
      then w\<lparr>steps := (steps w)[nat step_index :=
                         (steps w ! nat step_index)\<lparr>status := st, message := msg\<rparr>],
              current_step := step_index\<rparr>
      else w)"

section \<open>The world outside the program\<close>

text \<open>How a launch of a child process ends, as \<open>subprocess.run\<close> reports it.\<close>

datatype proc_outcome =
    Exited int string string
  | TimeoutExpired
  | LaunchError string

text \<open>
  The answers of the operating system and of the collaborators, and what the program
  leaves behind there.
  \<^item> \<open>log_py\<close>: the content of \<open>log.py\<close>, \<open>None\<close> when it cannot be opened and read;
    \<open>log_py_writable\<close>: whether it can be opened for writing.
  \<^item> \<open>re_template\<close>: what \<open>re.sub\<close> makes of a replacement string that holds a
    backslash: \<open>None\<close> when it raises \<open>re.error\<close>, else the replacement as a function of
    the matched text; the escapes of \<open>re\<close> are not modelled further.
  \<^item> \<open>child\<close>: how the child process of a script ends; \<open>launched\<close>: the launches so far,
    with their timeouts.
  \<^item> \<open>makedirs\<close>: the message of the \<open>OSError\<close> of \<open>os.makedirs(path, exist_ok=True)\<close>,
    if it raises.
  \<^item> \<open>cwd\<close>, \<open>path_exists\<close>, \<open>walk\<close>: \<open>os.getcwd()\<close>, \<open>os.path.exists\<close> and the
    \<open>(root, files)\<close> of \<open>os.walk\<close>, read when a stage process has returned; the file
    system is in one state during the scan of a stage.
  \<^item> \<open>validate_jmx_file\<close>: the validator's result for a script, or the text of the
    exception it raises; \<open>report_error\<close>: the text of the exception of
    \<open>generate_validation_report\<close> for the report of a script, if it raises;
    \<open>validated\<close>: the scripts handed to \<open>validate_jmx_file\<close> so far.
\<close>

record world =
  log_py :: "string option"
  log_py_writable :: bool
  re_template :: "string \<Rightarrow> (string \<Rightarrow> string) option"
  child :: "string \<Rightarrow> proc_outcome"
  launched :: "(string \<times> int) list"
  makedirs :: "string \<Rightarrow> string option"
  cwd :: string
  path_exists :: "string \<Rightarrow> bool"
  walk :: "string \<Rightarrow> (string \<times> string list) list"
  validate_jmx_file :: "string \<Rightarrow> string + validation_result"
  report_error :: "string \<Rightarrow> string option"
  validated :: "string list"

section \<open>Process Runner\<close>

text \<open>
  \<open>run_script_with_timeout\<close>: one call of \<open>subprocess.run\<close>, whose three ways of ending
  are the three \<open>return\<close> statements.
\<close>

definition run_script_with_timeout :: "world \<Rightarrow> string \<Rightarrow> int \<Rightarrow> proc_result \<times> world" where
  "run_script_with_timeout os script_name timeout =
     (let os' = os\<lparr>launched := launched os @ [(script_name, timeout)]\<rparr>
      in case child os script_name of
           Exited rc out err \<Rightarrow>
             (\<lparr>success = (rc = 0), returncode = rc, stdout = out, stderr = err\<rparr>, os')
         | TimeoutExpired \<Rightarrow>
             (\<lparr>success = False, returncode = - 1, stdout = '''',
               stderr = ''Script execution timed out after '' @ str_int timeout @ '' seconds''\<rparr>, os')
         | LaunchError e \<Rightarrow>
             (\<lparr>success = False, returncode = - 1, stdout = '''', stderr = e\<rparr>, os'))"

section \<open>URL extraction\<close>

text \<open>
  The pattern \<open>https?://[^\s]+\<close> tried at the start of a string: the scheme with or
  without its \<open>s\<close>, then the longest run of characters that are not white space, which
  must not be empty. The result is the matched text.
\<close>

definition url_match :: "string \<Rightarrow> string option" where
  "url_match s =
     (let scheme = (if startswith s ''https://'' then Some ''https://''
                    else if startswith s ''http://'' then Some ''http://'' else None)
      in case scheme of
           None \<Rightarrow> None
         | Some p \<Rightarrow>
             (let body = takeWhile (\<lambda>c. \<not> is_space c) (drop (length p) s)
              in if body = [] then None else Some (p @ body)))"

text \<open>\<open>re.findall\<close> with that pattern: the matches from left to right, the search going
  on behind each match.\<close>

function findall_url :: "string \<Rightarrow> string list" where
  "findall_url [] = []"
| "findall_url (c # cs) =
     (case url_match (c # cs) of
        Some m \<Rightarrow> m # findall_url (drop (length m) (c # cs))
      | None \<Rightarrow> findall_url cs)"
  by pat_completeness auto
termination
  by (relation "measure length")
     (auto simp: url_match_def Let_def split: if_splits option.splits)

text \<open>\<open>urls[0] if urls else "https://example.com"\<close>.\<close>

definition first_url_or_default :: "string \<Rightarrow> string" where
  "first_url_or_default story =
     (case findall_url story of [] \<Rightarrow> ''https://example.com'' | u # _ \<Rightarrow> u)"

section \<open>Task Specification Writer\<close>

text \<open>The f-string \<open>new_task\<close>.\<close>

definition new_task :: "string \<Rightarrow> string \<Rightarrow> string" where
  \<open>new_task target story =
     ''TASK = """'' @ [nl] @ ''As a user,'' @ [nl] @ ''I want to go to '' @ target @ '','' @ [nl]
     @ story @ [nl] @ ''And verify the task is completed.'' @ [nl] @ ''"""''\<close>

text \<open>
  The pattern \<open>TASK\s*=\s*""".*?"""\<close> with \<open>re.DOTALL\<close>, tried at the start of a string.
  \<open>opener\<close> matches \<open>TASK\s*=\s*"""\<close> and returns what follows it; the lazy \<open>.*?"""\<close>
  then ends at the first \<open>"""\<close> of the rest, which \<open>find_tq\<close> locates. \<open>task_match\<close> is
  the length of the match.
\<close>

definition opener :: "string \<Rightarrow> string option" where
  \<open>opener s =
     (if startswith s ''TASK'' then
        (case dropWhile is_space (drop 4 s) of
           [] \<Rightarrow> None
         | c # r \<Rightarrow>
             if c = CHR ''='' then
               (let r2 = dropWhile is_space r
                in if startswith r2 ''"""'' then Some (drop 3 r2) else None)
             else None)
      else None)\<close>

fun find_tq :: "string \<Rightarrow> nat option" where
  \<open>find_tq [] = None\<close>
| \<open>find_tq (c # cs) =
     (if startswith (c # cs) ''"""'' then Some 0 else map_option Suc (find_tq cs))\<close>

definition task_match :: "string \<Rightarrow> nat option" where
  "task_match s =
     (case opener s of
        None \<Rightarrow> None
      | Some r \<Rightarrow>
          (case find_tq r of
             None \<Rightarrow> None
           | Some k \<Rightarrow> Some (length s - length r + k + 3)))"

text \<open>\<open>re.search(task_pattern, content, re.DOTALL)\<close> as a truth value.\<close>

fun re_search_task :: "string \<Rightarrow> bool" where
  "re_search_task [] = False"
| "re_search_task (c # cs) = (task_match (c # cs) \<noteq> None \<or> re_search_task cs)"

text \<open>\<open>re.sub(task_pattern, repl, content, flags=re.DOTALL)\<close>: every match, from left to
  right and without overlap, gives way to the replacement made for it.\<close>

function re_sub_task :: "(string \<Rightarrow> string) \<Rightarrow> string \<Rightarrow> string" where
  "re_sub_task repl [] = []"
| "re_sub_task repl (c # cs) =
     (case task_match (c # cs) of
        Some n \<Rightarrow> repl (take n (c # cs)) @ re_sub_task repl (drop n (c # cs))
      | None \<Rightarrow> c # re_sub_task repl cs)"
  by pat_completeness auto
termination
  by (relation "measure (\<lambda>(repl, s). length s)")
     (auto simp: task_match_def split: option.splits)

text \<open>
  The replacement string of \<open>re.sub\<close>: taken as it is when it holds no backslash; with a
  backslash its escapes are processed by \<open>re\<close>, which the world answers for.
\<close>

definition compile_template :: "world \<Rightarrow> string \<Rightarrow> (string \<Rightarrow> string) option" where
  "compile_template os repl =
     (if CHR 0x5C \<in> set repl then re_template os repl else Some (\<lambda>m. repl))"

text \<open>\<open>content.split('\n')\<close>, the loop that finds the line behind the last import, and
  \<open>lines.insert\<close>.\<close>

fun split :: "char \<Rightarrow> string \<Rightarrow> string list" where
  "split sep [] = [[]]"
| "split sep (c # cs) =
     (if c = sep then [] # split sep cs
      else (case split sep cs of [] \<Rightarrow> [[c]] | l # ls \<Rightarrow> (c # l) # ls))"

definition insert_index :: "string list \<Rightarrow> nat" where
  "insert_index lines =
     foldl (\<lambda>idx (i, line).
              if startswith line ''import '' \<or> startswith line ''from '' then i + 1 else idx)
           0 (enumerate 0 lines)"

definition insert_task :: "string \<Rightarrow> string \<Rightarrow> string" where
  "insert_task nt content =
     (let lines = split nl content; i = insert_index lines
      in join [nl] (take i lines @ [[nl] @ nt @ [nl]] @ drop i lines))"

text \<open>
  \<open>update_task_in_log_file\<close>. Every exception inside the \<open>try\<close> (the file cannot be read,
  \<open>re.sub\<close> rejects the replacement, the file cannot be opened for writing) ends in
  \<open>return None\<close> with \<open>log.py\<close> as it was.
\<close>

definition update_task_in_log_file :: "world \<Rightarrow> string \<Rightarrow> string option \<times> world" where
  "update_task_in_log_file os story =
     (case log_py os of
        None \<Rightarrow> (None, os)
      | Some content \<Rightarrow>
          (let target = first_url_or_default story;
               nt = new_task target story;
               updated_content =
                 (if re_search_task content
                  then map_option (\<lambda>repl. re_sub_task repl content) (compile_template os nt)
                  else Some (insert_task nt content))
           in case updated_content of
                None \<Rightarrow> (None, os)
              | Some u \<Rightarrow>
                  if log_py_writable os then (Some target, os\<lparr>log_py := Some u\<rparr>)
                  else (None, os)))"

section \<open>Artifact Scanner\<close>

text \<open>\<open>os.path.join\<close> of two components and \<open>os.path.basename\<close> (POSIX).\<close>

definition path_join :: "string \<Rightarrow> string \<Rightarrow> string" where
  "path_join a p =
     (if startswith p ''/'' then p
      else if a = [] \<or> endswith a ''/'' then a @ p
      else a @ ''/'' @ p)"

definition basename :: "string \<Rightarrow> string" where
  "basename p = rev (takeWhile (\<lambda>c. c \<noteq> CHR ''/'') (rev p))"

text \<open>The two nested loops over \<open>os.walk(dir)\<close>, keeping the files that pass \<open>keep\<close>.\<close>

definition walk_files :: "world \<Rightarrow> string \<Rightarrow> (string \<Rightarrow> bool) \<Rightarrow> string list" where
  "walk_files os dir keep =
     concat (map (\<lambda>(root, files). map (path_join root) (filter keep files)) (walk os dir))"

definition expected_teststeps_files :: "string list" where
  "expected_teststeps_files =
     [''TestSteps_Output/test_steps_structured.json'',
      ''TestSteps_Output/test_steps_simple.json'',
      ''TestSteps_Output/TestSteps.txt'',
      ''TestSteps_Output/correlation_rules.json'']"

text \<open>The loop that appends the walked files not yet in \<open>output_files\<close>.\<close>

definition add_missing :: "string list \<Rightarrow> string list \<Rightarrow> string list" where
  "add_missing output_files actual =
     foldl (\<lambda>acc f. if f \<in> set acc then acc else acc @ [f]) output_files actual"

section \<open>Validation Aggregator\<close>

text \<open>
  The loop over \<open>jmx_files\<close>: the check, then the report, for each script in turn; the
  first exception leaves the loop.
\<close>

fun validate_all ::
  "world \<Rightarrow> string list \<Rightarrow> (string + (string \<times> validation_result) list) \<times> world" where
  "validate_all os [] = (Inr [], os)"
| "validate_all os (f # fs) =
     (let os1 = os\<lparr>validated := validated os @ [f]\<rparr>
      in case validate_jmx_file os f of
           Inl e \<Rightarrow> (Inl e, os1)
         | Inr r \<Rightarrow>
             (case report_error os f of
                Some e \<Rightarrow> (Inl e, os1)
              | None \<Rightarrow>
                  (case validate_all os1 fs of
                     (Inl e, os2) \<Rightarrow> (Inl e, os2)
                   | (Inr vrs, os2) \<Rightarrow> (Inr ((f, r) # vrs), os2))))"

text \<open>\<open>sum(1 for vr in validation_results if vr['result'].get('overall_status') == c)\<close>.\<close>

definition count_status :: "string \<Rightarrow> (string \<times> validation_result) list \<Rightarrow> nat" where
  "count_status c vrs =
     sum_list (map (\<lambda>vr. 1) (filter (\<lambda>vr. overall_status (snd vr) = Some c) vrs))"

definition validation_message :: "nat \<Rightarrow> nat \<Rightarrow> nat \<Rightarrow> string" where
  "validation_message passed warnings failed =
     ''**Validation Complete!**'' @ [nl, nl] @ ''**Quality Assessment:**'' @ [nl]
     @ ''Passed: '' @ str_int (int passed) @ [nl]
     @ ''Warnings: '' @ str_int (int warnings) @ ''  '' @ [nl]
     @ ''Failed: '' @ str_int (int failed) @ [nl, nl]
     @ ''**Performance Test Ready!**'' @ [nl]
     @ ''Your complete JMeter test suite is ready for execution.''"

section \<open>Stage Sequencer\<close>

text \<open>
  The running method: \<open>self\<close>, the world, and the states \<open>self\<close> went through before, the
  latest first. \<open>assign\<close> is one assignment to \<open>self\<close> (a call of \<open>update_step_status\<close>
  counts as one); \<open>observable\<close> lists, in order, every state a poller can read.
\<close>

record state =
  self :: workflow
  os :: world
  seen :: "workflow list"

definition assign :: "(workflow \<Rightarrow> workflow) \<Rightarrow> state \<Rightarrow> state" where
  "assign f s = s\<lparr>self := f (self s), seen := self s # seen s\<rparr>"

definition observable :: "state \<Rightarrow> workflow list" where
  "observable s = rev (self s # seen s)"

text \<open>How a stage leaves: to the next stage, by \<open>return\<close>, or by an exception that the
  outer \<open>except\<close> catches.\<close>

datatype flow = Next state | Return state | Raise string state

fun bind :: "flow \<Rightarrow> (state \<Rightarrow> flow) \<Rightarrow> flow" where
  "bind (Next s) f = f s"
| "bind (Return s) f = Return s"
| "bind (Raise e s) f = Raise e s"

text \<open>The recurring pair \<open>self.update_step_status(k, "failed", msg); self.status = "failed"\<close>.\<close>

definition fail_step :: "int \<Rightarrow> string \<Rightarrow> state \<Rightarrow> state" where
  "fail_step k msg s =
     assign (\<lambda>w. w\<lparr>wf_status := Failed\<rparr>) (assign (\<lambda>w. update_step_status w k Failed msg) s)"

definition set_result :: "string \<Rightarrow> payload \<Rightarrow> state \<Rightarrow> state" where
  "set_result key v s = assign (\<lambda>w. w\<lparr>results := (results w)(key \<mapsto> v)\<rparr>) s"

definition str_opt :: "string option \<Rightarrow> string" where
  "str_opt u = (case u of None \<Rightarrow> ''None'' | Some x \<Rightarrow> x)"

definition planning_message :: "string option \<Rightarrow> string \<Rightarrow> string" where
  "planning_message url story =
     ''**Analysis Complete!**'' @ [nl, nl] @ ''**Automation Plan:**'' @ [nl]
     @ ''Target URL: '' @ str_opt url @ [nl] @ ''User Story: '' @ story @ [nl, nl]
     @ ''**Execution Sequence:**'' @ [nl]
     @ ''1. Network traffic capture and analysis'' @ [nl]
     @ ''2. Test steps generation with correlation'' @ [nl]
     @ ''3. JMX script creation for JMeter'' @ [nl]
     @ ''4. Validation and quality assurance'' @ [nl, nl]
     @ ''**Starting automated execution...**''"

text \<open>Step 1, AI Planner Analysis.\<close>

definition stage_planner :: "state \<Rightarrow> flow" where
  "stage_planner s0 =
     (let s1 = assign (\<lambda>w. update_step_status w 0 Running
                 ''Analyzing user story and planning automation sequence...'') s0;
          s2 = assign (\<lambda>w. w\<lparr>target_url := Some (first_url_or_default (user_story w))\<rparr>) s1;
          s3 = assign (\<lambda>w. update_step_status w 0 Completed
                 (planning_message (target_url w) (user_story w))) s2
      in Next s3)"

text \<open>Step 2, Network Logging. The test \<open>not self.update_task_in_log_file(...)\<close> holds for
  \<open>None\<close> and for the empty string.\<close>

definition stage_network :: "globals \<Rightarrow> state \<Rightarrow> flow" where
  "stage_network g s0 =
     (if \<not> network_logger_module g then
        Return (fail_step 1 ''log.py module not available'' s0)
      else
        (let s1 = assign (\<lambda>w. update_step_status w 1 Running
                    ''Executing network traffic capture...'') s0;
             ut = update_task_in_log_file (os s1) (user_story (self s1));
             s2 = s1\<lparr>os := snd ut\<rparr>
         in if fst ut = None \<or> fst ut = Some [] then
              Return (fail_step 1 ''Failed to update TASK in log.py'' s2)
            else
              (let rr = run_script_with_timeout (os s2) ''log.py'' 300;
                   result = fst rr;
                   s3 = s2\<lparr>os := snd rr\<rparr>
               in if success result then
                    Next (set_result ''network_logging'' (Proc result)
                           (assign (\<lambda>w. update_step_status w 1 Completed
                              (''**Network Logging Complete!**'' @ [nl]
                               @ ''Target URL: '' @ str_opt (target_url w) @ [nl]
                               @ ''Network traffic captured successfully'' @ [nl]
                               @ ''Correlation data prepared'')) s3))
                  else
                    Return (fail_step 1 (''Network logging failed: '' @ stderr result) s3))))"

definition teststeps_message :: "string list \<Rightarrow> string" where
  "teststeps_message output_files =
     ''**Test Steps Generation Complete!**'' @ [nl]
     @ ''Files created: '' @ str_int (int (length output_files)) @ [nl]
     @ ''Output directory: TestSteps_Output/'' @ [nl]
     @ ''Test steps structured and ready'' @ [nl]
     @ ''Correlation rules defined'' @ [nl, nl]
     @ ''**Created Files:**'' @ [nl]
     @ (if output_files \<noteq> [] then join [nl] (map (\<lambda>f. basename f) output_files)
        else ''No files detected - check TestSteps.py output'') @ [nl, nl]
     @ ''**Full paths:**'' @ [nl]
     @ (if output_files \<noteq> [] then join [nl] output_files else ''No files found'')"

text \<open>
  Step 3, Test Steps Generation. The local \<open>actual_files\<close> is bound only inside
  \<open>if os.path.exists('TestSteps_Output')\<close>; it is \<open>None\<close> here while unbound, and the
  reference to it in the debug dictionary raises when it is.
\<close>

definition stage_test_steps :: "globals \<Rightarrow> state \<Rightarrow> flow" where
  "stage_test_steps g s0 =
     (if \<not> test_steps_module g then
        Return (fail_step 2 ''TestSteps.py module not available'' s0)
      else
        (let s1 = assign (\<lambda>w. update_step_status w 2 Running
                    ''Generating test steps with correlation mapping...'') s0
         in case makedirs (os s1) ''TestSteps_Output'' of
              Some e \<Rightarrow> Raise e s1
            | None \<Rightarrow>
                (let rr = run_script_with_timeout (os s1) ''TestSteps.py'' 120;
                     result = fst rr;
                     s2 = s1\<lparr>os := snd rr\<rparr>
                 in if success result then
                      (let found = filter (path_exists (os s2)) expected_teststeps_files;
                           actual_files =
                             (if path_exists (os s2) ''TestSteps_Output''
                              then Some (walk_files (os s2) ''TestSteps_Output'' (\<lambda>f. True))
                              else None);
                           output_files =
                             (case actual_files of
                                None \<Rightarrow> found
                              | Some actual \<Rightarrow> add_missing found actual);
                           s3 = assign (\<lambda>w. update_step_status w 2 Completed
                                  (teststeps_message output_files)) s2;
                           s4 = set_result ''test_steps'' (Proc result) s3;
                           s5 = set_result ''output_files'' (Paths output_files) s4
                       in case (if path_exists (os s5) ''TestSteps_Output''
                                then (case actual_files of
                                        Some actual \<Rightarrow> Inr actual
                                      | None \<Rightarrow> Inl ''local variable 'actual_files' referenced before assignment'')
                                else Inr [])
                          of Inl e \<Rightarrow> Raise e s5
                           | Inr contents \<Rightarrow>
                               Next (set_result ''teststeps_debug''
                                 (Debug \<lparr>working_directory = cwd (os s5),
                                         output_directory_exists = path_exists (os s5) ''TestSteps_Output'',
                                         expected_files = expected_teststeps_files,
                                         found_files = output_files,
                                         actual_directory_contents = contents\<rparr>) s5))
                    else
                      Return (fail_step 2
                        (''Test steps generation failed: '' @ stderr result) s2))))"

text \<open>Step 4, JMX Script Creation.\<close>

definition stage_jmx :: "globals \<Rightarrow> state \<Rightarrow> flow" where
  "stage_jmx g s0 =
     (if \<not> jmx_generator_module g then
        Return (fail_step 3 ''PTScript.py module not available'' s0)
      else
        (let s1 = assign (\<lambda>w. update_step_status w 3 Running
                    ''Creating JMX scripts for JMeter...'') s0
         in case makedirs (os s1) ''JMX_SCRIPT_OUTPUT'' of
              Some e \<Rightarrow> Raise e s1
            | None \<Rightarrow>
                (let rr = run_script_with_timeout (os s1) ''PTScript.py'' 180;
                     result = fst rr;
                     s2 = s1\<lparr>os := snd rr\<rparr>
                 in if success result then
                      (let jmx_files =
                             (if path_exists (os s2) ''JMX_SCRIPT_OUTPUT''
                              then walk_files (os s2) ''JMX_SCRIPT_OUTPUT'' (\<lambda>f. endswith f ''.jmx'')
                              else []);
                           s3 = assign (\<lambda>w. update_step_status w 3 Completed
                                  (''**JMX Generation Complete!**'' @ [nl]
                                   @ ''JMX files created: '' @ str_int (int (length jmx_files)) @ [nl]
                                   @ ''Ready for JMeter execution'' @ [nl]
                                   @ ''Performance test scripts prepared'')) s2;
                           s4 = set_result ''jmx_generation'' (Proc result) s3
                       in Next (set_result ''jmx_files'' (Paths jmx_files) s4))
                    else
                      Return (fail_step 3 (''JMX generation failed: '' @ stderr result) s2))))"

text \<open>
  Step 5, JMX Validation, with its own \<open>try\<close>. \<open>self.results.get('jmx_files', [])\<close> is the
  list stored by step 4; no other kind of value is ever stored under that key.
\<close>

definition get_jmx_files :: "workflow \<Rightarrow> string list" where
  "get_jmx_files w =
     (case results w ''jmx_files'' of Some (Paths fs) \<Rightarrow> fs | _ \<Rightarrow> [])"

definition stage_validation :: "globals \<Rightarrow> state \<Rightarrow> flow" where
  "stage_validation g s0 =
     (if \<not> validation_module g \<or> \<not> validator (self s0) then
        Return (fail_step 4 ''validation.py module not available'' s0)
      else
        (let s1 = assign (\<lambda>w. update_step_status w 4 Running
                    ''Validating JMX scripts and performing quality checks...'') s0;
             jmx_files = get_jmx_files (self s1)
         in if jmx_files = [] then
              Return (fail_step 4 ''No JMX files found to validate'' s1)
            else
              (let va = validate_all (os s1) jmx_files;
                   s2 = s1\<lparr>os := snd va\<rparr>
               in case fst va of
                    Inl e \<Rightarrow> Return (fail_step 4 (''Validation failed: '' @ e) s2)
                  | Inr validation_results \<Rightarrow>
                      (let passed = count_status ''pass'' validation_results;
                           warnings = count_status ''warning'' validation_results;
                           failed = count_status ''fail'' validation_results;
                           s3 = assign (\<lambda>w. update_step_status w 4 Completed
                                  (validation_message passed warnings failed)) s2;
                           s4 = set_result ''validation'' (Validations validation_results) s3
                       in Next (assign (\<lambda>w. w\<lparr>wf_status := Completed\<rparr>) s4)))))"

text \<open>The outer \<open>except Exception\<close>.\<close>

fun handler :: "flow \<Rightarrow> state" where
  "handler (Next s) = s"
| "handler (Return s) = s"
| "handler (Raise e s) =
     assign (\<lambda>w. update_step_status w (current_step w) Failed (''Workflow error: '' @ e))
       (assign (\<lambda>w. w\<lparr>wf_status := Failed\<rparr>) s)"

definition execute_workflow :: "globals \<Rightarrow> state \<Rightarrow> state" where
  "execute_workflow g s0 =
     (let s1 = assign (\<lambda>w. w\<lparr>wf_status := Running\<rparr>) s0
      in handler
           (bind (bind (bind (bind (stage_planner s1) (stage_network g)) (stage_test_steps g))
              (stage_jmx g)) (stage_validation g)))"

text \<open>A workflow as \<open>start_automated_workflow\<close> makes it, about to run in its thread.\<close>

definition fresh :: "globals \<Rightarrow> bool \<Rightarrow> string \<Rightarrow> string \<Rightarrow> world \<Rightarrow> state" where
  "fresh g constructed wid story w =
     \<lparr>self = init_workflow g constructed wid story, os = w, seen = []\<rparr>"

section \<open>The chat endpoint\<close>













section \<open>Runs, observations and examples\<close>

text \<open>What the thread started by \<open>start_automated_workflow\<close> computes.\<close>

definition run :: "globals \<Rightarrow> bool \<Rightarrow> string \<Rightarrow> string \<Rightarrow> world \<Rightarrow> state" where
  "run g constructed wid story w = execute_workflow g (fresh g constructed wid story w)"

text \<open>The keys of \<open>self.results\<close>, each with the index of the step whose stage assigns it.\<close>

definition result_keys :: "(nat \<times> string) list" where
  "result_keys =
     [(1, ''network_logging''),
      (2, ''test_steps''), (2, ''output_files''), (2, ''teststeps_debug''),
      (3, ''jmx_generation''), (3, ''jmx_files''),
      (4, ''validation'')]"

definition recorded_by :: "nat \<Rightarrow> string list" where
  "recorded_by j = map snd (filter (\<lambda>p. fst p = j) result_keys)"

text \<open>
  The column of step statuses, and the notions the proofs about a run use: every key
  from stage \<open>k\<close> on is still unset; the first \<open>k\<close> steps completed, step \<open>k\<close> in status
  \<open>x\<close>, the rest pending; a property for each way a stage can leave.
\<close>

definition sts :: "workflow \<Rightarrow> status list" where
  "sts w = map status (steps w)"

definition keys_from :: "nat \<Rightarrow> string list" where
  "keys_from k = map snd (filter (\<lambda>p. k \<le> fst p) result_keys)"

definition free_from :: "nat \<Rightarrow> workflow \<Rightarrow> bool" where
  "free_from k w \<longleftrightarrow> (\<forall>key\<in>set (keys_from k). results w key = None)"

definition shape :: "nat \<Rightarrow> status \<Rightarrow> status list" where
  "shape k x = replicate k Completed @ x # replicate (4 - k) Pending"

fun flow_all :: "(state \<Rightarrow> bool) \<Rightarrow> (state \<Rightarrow> bool) \<Rightarrow> (state \<Rightarrow> bool) \<Rightarrow> flow \<Rightarrow> bool" where
  "flow_all P Q R (Next s) = P s"
| "flow_all P Q R (Return s) = Q s"
| "flow_all P Q R (Raise e s) = R s"

definition at_stage :: "nat \<Rightarrow> state \<Rightarrow> bool" where
  "at_stage k s \<longleftrightarrow>
     sts (self s) = replicate k Completed @ replicate (5 - k) Pending \<and> free_from k (self s)"

definition failed_at :: "nat \<Rightarrow> state \<Rightarrow> bool" where
  "failed_at k s \<longleftrightarrow>
     sts (self s) = shape k Failed \<and> wf_status (self s) = Failed \<and> free_from (Suc k) (self s)"

definition raised_at :: "nat \<Rightarrow> state \<Rightarrow> bool" where
  "raised_at k s \<longleftrightarrow>
     current_step (self s) = int k \<and> (\<exists>x. sts (self s) = shape k x) \<and> free_from (Suc k) (self s)"

text \<open>
  An example: every module loaded, \<open>log.py\<close> readable and writable, every child process
  exiting with code 0, two scripts and a text file in the script directory, a validator
  that passes every script. The story is that of scenario A of the specification.
\<close>

definition demo_globals :: globals where
  "demo_globals = \<lparr>network_logger_module = True, test_steps_module = True,
     jmx_generator_module = True, validation_module = True, MODULE_ERRORS = []\<rparr>"

definition demo_world :: world where
  "demo_world =
     \<lparr>log_py = Some ''import os'', log_py_writable = True, re_template = (\<lambda>t. None),
      child = (\<lambda>script. Exited 0 ''ok'' []), launched = [], makedirs = (\<lambda>p. None),
      cwd = ''/app'', path_exists = (\<lambda>p. True),
      walk = (\<lambda>d. if d = ''JMX_SCRIPT_OUTPUT''
                   then [(''JMX_SCRIPT_OUTPUT'', [''a.jmx'', ''b.jmx'', ''notes.txt''])] else []),
      validate_jmx_file = (\<lambda>f. Inr \<lparr>overall_status = Some ''pass''\<rparr>),
      report_error = (\<lambda>f. None), validated = []\<rparr>"

definition demo_story :: string where
  "demo_story = ''Test login for https://example.com''"

section \<open>Notions used in the statements and proofs\<close>

text \<open>
  The URL shape of the specification: \<open>http://\<close> or \<open>https://\<close>, then one or more
  characters, none of them white space.
\<close>

definition url_shaped :: "string \<Rightarrow> bool" where
  "url_shaped u \<longleftrightarrow>
     (startswith u ''http://'' \<and> drop 7 u \<noteq> [] \<and> (\<forall>c\<in>set (drop 7 u). \<not> is_space c))
     \<or> (startswith u ''https://'' \<and> drop 8 u \<noteq> [] \<and> (\<forall>c\<in>set (drop 8 u). \<not> is_space c))"

text \<open>
  The scripts the scan of stage 4 finds in a world, and the conditions under which stages
  2 to 4 all succeed; \<open>same_oracles\<close> says that a state still sees the answers of world \<open>w\<close>.
\<close>

definition jmx_scan :: "world \<Rightarrow> string list" where
  "jmx_scan w =
     (if path_exists w ''JMX_SCRIPT_OUTPUT''
      then walk_files w ''JMX_SCRIPT_OUTPUT'' (\<lambda>f. endswith f ''.jmx'') else [])"

definition happy :: "globals \<Rightarrow> world \<Rightarrow> string \<Rightarrow> bool" where
  "happy g w story \<longleftrightarrow>
     network_logger_module g
     \<and> (\<exists>u. fst (update_task_in_log_file w story) = Some u \<and> u \<noteq> [])
     \<and> (\<exists>out err. child w ''log.py'' = Exited 0 out err)
     \<and> test_steps_module g \<and> makedirs w ''TestSteps_Output'' = None
     \<and> (\<exists>out err. child w ''TestSteps.py'' = Exited 0 out err)
     \<and> jmx_generator_module g \<and> makedirs w ''JMX_SCRIPT_OUTPUT'' = None
     \<and> (\<exists>out err. child w ''PTScript.py'' = Exited 0 out err)"

definition same_oracles :: "world \<Rightarrow> state \<Rightarrow> bool" where
  "same_oracles w s \<longleftrightarrow>
     child (os s) = child w \<and> makedirs (os s) = makedirs w \<and> cwd (os s) = cwd w
     \<and> path_exists (os s) = path_exists w \<and> walk (os s) = walk w
     \<and> validate_jmx_file (os s) = validate_jmx_file w \<and> report_error (os s) = report_error w"

text \<open>
  The validator has not been called since the run began; the outcome claimed for a run
  whose scan found no script.
\<close>

definition unvalidated :: "world \<Rightarrow> state \<Rightarrow> bool" where
  "unvalidated w s \<longleftrightarrow> validated (os s) = validated w"

definition no_scripts_outcome :: "world \<Rightarrow> state \<Rightarrow> bool" where
  "no_scripts_outcome w s \<longleftrightarrow>
     (results (self s) ''jmx_files'' = Some (Paths []) \<longrightarrow>
        sts (self s) ! 4 = Failed \<and> wf_status (self s) = Failed \<and> validated (os s) = validated w)"

text \<open>
  What the scan of stage 3 puts into \<open>results\<close>: the directory contents (empty when
  the directory does not exist), and the files found.
\<close>

definition teststeps_actual :: "world \<Rightarrow> string list" where
  "teststeps_actual w =
     (if path_exists w ''TestSteps_Output''
      then walk_files w ''TestSteps_Output'' (\<lambda>f. True) else [])"

definition teststeps_found :: "world \<Rightarrow> string list" where
  "teststeps_found w =
     add_missing (filter (path_exists w) expected_teststeps_files) (teststeps_actual w)"

definition teststeps_recorded :: "world \<Rightarrow> workflow \<Rightarrow> bool" where
  "teststeps_recorded w f \<longleftrightarrow>
     results f ''output_files'' = Some (Paths (teststeps_found w))
     \<and> results f ''teststeps_debug'' =
         Some (Debug \<lparr>working_directory = cwd w,
                      output_directory_exists = path_exists w ''TestSteps_Output'',
                      expected_files = expected_teststeps_files,
                      found_files = teststeps_found w,
                      actual_directory_contents = teststeps_actual w\<rparr>)"


definition msgs :: "workflow \<Rightarrow> string list" where
  "msgs w = map message (steps w)"


text \<open>
  The collaborator of the stage of step \<open>i\<close> is missing: its module did not load or, for
  the last stage, \<open>self.validator\<close> is \<open>None\<close> (\<open>v\<close> tells whether it is an object). The moves
  of a step status between two consecutive observable states: none, pending to running,
  running to completed or failed, and pending to failed where the collaborator is missing.
\<close>

definition collaborator_missing :: "globals \<Rightarrow> bool \<Rightarrow> nat \<Rightarrow> bool" where
  "collaborator_missing g v i \<longleftrightarrow>
     (i = 1 \<and> \<not> network_logger_module g) \<or> (i = 2 \<and> \<not> test_steps_module g)
     \<or> (i = 3 \<and> \<not> jmx_generator_module g) \<or> (i = 4 \<and> (\<not> validation_module g \<or> \<not> v))"

definition step_move :: "globals \<Rightarrow> bool \<Rightarrow> nat \<Rightarrow> status \<Rightarrow> status \<Rightarrow> bool" where
  "step_move g v i a b \<longleftrightarrow>
     a = b \<or> (a = Pending \<and> b = Running) \<or> (a = Running \<and> b = Completed)
     \<or> (a = Running \<and> b = Failed) \<or> (a = Pending \<and> b = Failed \<and> collaborator_missing g v i)"

text \<open>
  A step that is running is the only one, and every step before it is completed or
  failed. \<open>trace_ok\<close> puts both conditions on a list of observed workflows.
\<close>

definition running_ok :: "status list \<Rightarrow> bool" where
  "running_ok xs \<longleftrightarrow>
     (\<forall>i<length xs. xs ! i = Running \<longrightarrow>
        (\<forall>j<length xs. j \<noteq> i \<longrightarrow> xs ! j \<noteq> Running)
        \<and> (\<forall>j<i. xs ! j = Completed \<or> xs ! j = Failed))"

definition moves_ok :: "globals \<Rightarrow> bool \<Rightarrow> status list \<Rightarrow> status list \<Rightarrow> bool" where
  "moves_ok g v xs ys \<longleftrightarrow>
     length xs = 5 \<and> length ys = 5 \<and> (\<forall>i<5. step_move g v i (xs ! i) (ys ! i))"

definition trace_ok :: "globals \<Rightarrow> bool \<Rightarrow> workflow list \<Rightarrow> bool" where
  "trace_ok g v tr \<longleftrightarrow>
     (\<forall>w\<in>set tr. length (sts w) = 5 \<and> running_ok (sts w))
     \<and> successively (\<lambda>a b. moves_ok g v (sts a) (sts b)) tr"

text \<open>
  The properties of the three ways a stage leaves, for the proof about traces.
\<close>

definition tracked :: "globals \<Rightarrow> bool \<Rightarrow> nat \<Rightarrow> state \<Rightarrow> bool" where
  "tracked g v k s \<longleftrightarrow> at_stage k s \<and> trace_ok g v (observable s) \<and> validator (self s) = v"

definition raised_running :: "globals \<Rightarrow> bool \<Rightarrow> state \<Rightarrow> bool" where
  "raised_running g v s \<longleftrightarrow>
     trace_ok g v (observable s)
     \<and> ((current_step (self s) = 2 \<and> sts (self s) = [Completed, Completed, Running, Pending, Pending])
        \<or> (current_step (self s) = 3 \<and> sts (self s) = [Completed, Completed, Completed, Running, Pending]))"

text \<open>
  Step \<open>k\<close> is running in none of the listed workflows; the same on the status column of
  the observations of a state; the observations of a state begin with the list \<open>pre\<close>.
\<close>

definition never_running :: "nat \<Rightarrow> workflow list \<Rightarrow> bool" where
  "never_running k tr = list_all (\<lambda>wf. status (steps wf ! k) \<noteq> Running) tr"

definition quiet :: "nat \<Rightarrow> state \<Rightarrow> bool" where
  "quiet k s \<longleftrightarrow> list_all (\<lambda>wf. sts wf ! k \<noteq> Running) (observable s)"

definition begins :: "workflow list \<Rightarrow> state \<Rightarrow> bool" where
  "begins pre s \<longleftrightarrow> (\<exists>rest. observable s = pre @ rest)"


text \<open>
  No suffix of the string begins with the opener \<open>TASK\s*=\s*"""\<close> of the task pattern.
\<close>

fun opener_free :: "string \<Rightarrow> bool" where
  "opener_free [] = True"
| "opener_free (c # cs) = (opener (c # cs) = None \<and> opener_free cs)"


section \<open>Lemmas\<close>

declare re_search_task.simps [simp del] findall_url.simps [simp del] re_sub_task.simps [simp del]
  find_tq.simps [simp del]

lemma run_script_frame [simp]:
  "log_py (snd (run_script_with_timeout w n t)) = log_py w"
  "log_py_writable (snd (run_script_with_timeout w n t)) = log_py_writable w"
  "re_template (snd (run_script_with_timeout w n t)) = re_template w"
  "child (snd (run_script_with_timeout w n t)) = child w"
  "makedirs (snd (run_script_with_timeout w n t)) = makedirs w"
  "cwd (snd (run_script_with_timeout w n t)) = cwd w"
  "path_exists (snd (run_script_with_timeout w n t)) = path_exists w"
  "walk (snd (run_script_with_timeout w n t)) = walk w"
  "validate_jmx_file (snd (run_script_with_timeout w n t)) = validate_jmx_file w"
  "report_error (snd (run_script_with_timeout w n t)) = report_error w"
  "validated (snd (run_script_with_timeout w n t)) = validated w"
  by (simp_all add: run_script_with_timeout_def Let_def split: proc_outcome.splits)

lemma run_script_success:
  "success (fst (run_script_with_timeout w n t)) \<longleftrightarrow> (\<exists>out err. child w n = Exited 0 out err)"
  by (cases "child w n") (auto simp: run_script_with_timeout_def)

lemma update_task_frame [simp]:
  "log_py_writable (snd (update_task_in_log_file w story)) = log_py_writable w"
  "re_template (snd (update_task_in_log_file w story)) = re_template w"
  "child (snd (update_task_in_log_file w story)) = child w"
  "launched (snd (update_task_in_log_file w story)) = launched w"
  "makedirs (snd (update_task_in_log_file w story)) = makedirs w"
  "cwd (snd (update_task_in_log_file w story)) = cwd w"
  "path_exists (snd (update_task_in_log_file w story)) = path_exists w"
  "walk (snd (update_task_in_log_file w story)) = walk w"
  "validate_jmx_file (snd (update_task_in_log_file w story)) = validate_jmx_file w"
  "report_error (snd (update_task_in_log_file w story)) = report_error w"
  "validated (snd (update_task_in_log_file w story)) = validated w"
  by (simp_all add: update_task_in_log_file_def Let_def split: option.splits)

lemma demo_proj [simp]:
  "log_py demo_world = Some ''import os''"
  "log_py_writable demo_world"
  "child demo_world = (\<lambda>script. Exited 0 ''ok'' [])"
  "makedirs demo_world = (\<lambda>p. None)"
  "path_exists demo_world = (\<lambda>p. True)"
  "validate_jmx_file demo_world = (\<lambda>f. Inr \<lparr>overall_status = Some ''pass''\<rparr>)"
  "report_error demo_world = (\<lambda>f. None)"
  "validated demo_world = []"
  "launched demo_world = []"
  "network_logger_module demo_globals" "test_steps_module demo_globals"
  "jmx_generator_module demo_globals" "validation_module demo_globals"
  by (simp_all add: demo_world_def demo_globals_def)

lemma demo_first_url: "first_url_or_default demo_story = ''https://example.com''"
  by (simp add: demo_story_def first_url_or_default_def url_match_def startswith_def is_space_def
      Let_def findall_url.simps)

lemma demo_search: "\<not> re_search_task ''import os''"
  by (simp add: task_match_def opener_def startswith_def re_search_task.simps)

lemma demo_update:
  "log_py w = Some ''import os'' \<Longrightarrow> log_py_writable w \<Longrightarrow>
   fst (update_task_in_log_file w demo_story) = Some ''https://example.com''"
  by (simp add: update_task_in_log_file_def demo_first_url demo_search Let_def)

lemma assign_proj [simp]:
  "self (assign f s) = f (self s)" "os (assign f s) = os s"
  by (simp_all add: assign_def)

lemma update_proj [simp]:
  "wf_status (update_step_status w i st m) = wf_status w"
  "results (update_step_status w i st m) = results w"
  "validator (update_step_status w i st m) = validator w"
  "user_story (update_step_status w i st m) = user_story w"
  "target_url (update_step_status w i st m) = target_url w"
  by (simp_all add: update_step_status_def)

lemma sts_update [simp]:
  "sts (update_step_status w i st m) =
     (if 0 \<le> i \<and> i < int (length (sts w)) then (sts w)[nat i := st] else sts w)"
  by (simp add: update_step_status_def sts_def map_update)

lemma current_update [simp]:
  "current_step (update_step_status w i st m) =
     (if 0 \<le> i \<and> i < int (length (sts w)) then i else current_step w)"
  by (simp add: update_step_status_def sts_def)

lemma sts_fields [simp]:
  "sts (w\<lparr>wf_status := x\<rparr>) = sts w"
  "sts (w\<lparr>results := r\<rparr>) = sts w"
  "sts (w\<lparr>target_url := u\<rparr>) = sts w"
  by (simp_all add: sts_def)

lemma sts_init [simp]:
  "sts (init_workflow g c wid story) = [Pending, Pending, Pending, Pending, Pending]"
  by (simp add: sts_def init_workflow_def init_steps_def)

lemma init_proj [simp]:
  "wf_status (init_workflow g c wid story) = Initializing"
  "results (init_workflow g c wid story) = Map.empty"
  "current_step (init_workflow g c wid story) = 0"
  "user_story (init_workflow g c wid story) = story"
  "target_url (init_workflow g c wid story) = None"
  by (simp_all add: init_workflow_def)

lemma sts_nth: "k < length (steps w) \<Longrightarrow> sts w ! k = status (steps w ! k)"
  by (simp add: sts_def)

lemma flow_all_bind:
  "flow_all P Q R fl \<Longrightarrow> (\<And>s. P s \<Longrightarrow> flow_all P' Q R (f s)) \<Longrightarrow> flow_all P' Q R (bind fl f)"
  by (cases fl) auto

lemma flow_all_mono:
  "flow_all P Q R fl \<Longrightarrow> (\<And>s. P s \<Longrightarrow> P' s) \<Longrightarrow> (\<And>s. Q s \<Longrightarrow> Q' s) \<Longrightarrow>
   (\<And>s. R s \<Longrightarrow> R' s) \<Longrightarrow> flow_all P' Q' R' fl"
  by (cases fl) auto

lemma execute_workflow_rule:
  assumes init: "P0 (assign (\<lambda>w. w\<lparr>wf_status := Running\<rparr>) s0)"
    and s1: "\<And>s. P0 s \<Longrightarrow> flow_all P1 Q R (stage_planner s)"
    and s2: "\<And>s. P1 s \<Longrightarrow> flow_all P2 Q R (stage_network g s)"
    and s3: "\<And>s. P2 s \<Longrightarrow> flow_all P3 Q R (stage_test_steps g s)"
    and s4: "\<And>s. P3 s \<Longrightarrow> flow_all P4 Q R (stage_jmx g s)"
    and s5: "\<And>s. P4 s \<Longrightarrow> flow_all P5 Q R (stage_validation g s)"
    and fin: "\<And>s. P5 s \<Longrightarrow> F s" "\<And>s. Q s \<Longrightarrow> F s"
      "\<And>s e. R s \<Longrightarrow> F (handler (Raise e s))"
  shows "F (execute_workflow g s0)"
proof -
  let ?fl = "bind (bind (bind (bind (stage_planner (assign (\<lambda>w. w\<lparr>wf_status := Running\<rparr>) s0))
      (stage_network g)) (stage_test_steps g)) (stage_jmx g)) (stage_validation g)"
  have fl: "flow_all P5 Q R ?fl"
    by (intro flow_all_bind [where P = P4] flow_all_bind [where P = P3]
          flow_all_bind [where P = P2] flow_all_bind [where P = P1] s1 s2 s3 s4 s5 init)
  have "F (handler ?fl)"
  proof (cases ?fl)
    case (Raise e s)
    with fl have "R s" by simp
    then show ?thesis unfolding Raise by (rule fin(3))
  qed (use fl in \<open>simp_all add: fin\<close>)
  then show ?thesis
    by (simp add: execute_workflow_def Let_def)
qed

lemmas stage_defs = execute_workflow_def stage_planner_def stage_network_def stage_test_steps_def
  stage_jmx_def stage_validation_def fail_step_def set_result_def fresh_def get_jmx_files_def

lemmas shape_simps = shape_def numeral_eq_Suc free_from_def keys_from_def result_keys_def

lemmas at_defs = at_stage_def failed_at_def raised_at_def

lemma planner_at: "at_stage 0 s \<Longrightarrow> flow_all (at_stage 1) Q R (stage_planner s)"
  by (simp add: stage_planner_def Let_def at_defs shape_simps)

lemma network_at:
  "at_stage 1 s \<Longrightarrow> flow_all (at_stage 2) (failed_at 1) R (stage_network g s)"
  by (simp add: stage_network_def Let_def fail_step_def set_result_def at_defs shape_simps)

lemma test_steps_at:
  "at_stage 2 s \<Longrightarrow> flow_all (at_stage 3) (failed_at 2) (raised_at 2) (stage_test_steps g s)"
  by (simp add: stage_test_steps_def Let_def fail_step_def set_result_def at_defs shape_simps
      split: option.splits)

lemma jmx_at:
  "at_stage 3 s \<Longrightarrow> flow_all (at_stage 4) (failed_at 3) (raised_at 3) (stage_jmx g s)"
  by (simp add: stage_jmx_def Let_def fail_step_def set_result_def at_defs shape_simps
      split: option.splits)

lemma validation_at:
  "at_stage 4 s \<Longrightarrow>
   flow_all (\<lambda>s. sts (self s) = replicate 5 Completed) (failed_at 4) R (stage_validation g s)"
  by (simp add: stage_validation_def Let_def fail_step_def set_result_def at_defs shape_simps
      split: option.splits sum.splits)

lemma handler_failed_at: "raised_at k s \<Longrightarrow> k < 5 \<Longrightarrow> failed_at k (handler (Raise e s))"
  by (auto simp: at_defs shape_def free_from_def list_update_append)

lemma run_outcome:
  "(\<exists>k<5. failed_at k (run g c wid story w))
   \<or> sts (self (run g c wid story w)) = replicate 5 Completed"
  unfolding run_def
proof (rule execute_workflow_rule [where ?P0.0 = "at_stage 0" and ?P1.0 = "at_stage 1"
      and ?P2.0 = "at_stage 2" and ?P3.0 = "at_stage 3" and ?P4.0 = "at_stage 4"
      and ?P5.0 = "\<lambda>s. sts (self s) = replicate 5 Completed"
      and Q = "\<lambda>s. \<exists>k<5. failed_at k s" and R = "\<lambda>s. \<exists>k<5. raised_at k s"])
  show "at_stage 0 (assign (\<lambda>w. w\<lparr>wf_status := Running\<rparr>) (fresh g c wid story w))"
    by (simp add: fresh_def at_defs shape_simps)
next
  fix s assume "at_stage 0 s"
  from planner_at [OF this]
  show "flow_all (at_stage 1) (\<lambda>s. \<exists>k<5. failed_at k s) (\<lambda>s. \<exists>k<5. raised_at k s)
          (stage_planner s)" .
next
  fix s assume "at_stage 1 s"
  from network_at [OF this, of "\<lambda>s. False" g]
  show "flow_all (at_stage 2) (\<lambda>s. \<exists>k<5. failed_at k s) (\<lambda>s. \<exists>k<5. raised_at k s)
          (stage_network g s)"
    by (rule flow_all_mono) (auto intro: exI [of _ 1])
next
  fix s assume "at_stage 2 s"
  from test_steps_at [OF this, of g]
  show "flow_all (at_stage 3) (\<lambda>s. \<exists>k<5. failed_at k s) (\<lambda>s. \<exists>k<5. raised_at k s)
          (stage_test_steps g s)"
    by (rule flow_all_mono) (auto intro: exI [of _ 2])
next
  fix s assume "at_stage 3 s"
  from jmx_at [OF this, of g]
  show "flow_all (at_stage 4) (\<lambda>s. \<exists>k<5. failed_at k s) (\<lambda>s. \<exists>k<5. raised_at k s)
          (stage_jmx g s)"
    by (rule flow_all_mono) (auto intro: exI [of _ 3])
next
  fix s assume "at_stage 4 s"
  from validation_at [OF this, of "\<lambda>s. False" g]
  show "flow_all (\<lambda>s. sts (self s) = replicate 5 Completed) (\<lambda>s. \<exists>k<5. failed_at k s)
          (\<lambda>s. \<exists>k<5. raised_at k s) (stage_validation g s)"
    by (rule flow_all_mono) (auto intro: exI [of _ 4])
next
  fix s e assume "\<exists>k<5. raised_at k s"
  then show "(\<exists>k<5. failed_at k (handler (Raise e s)))
      \<or> sts (self (handler (Raise e s))) = replicate 5 Completed"
    using handler_failed_at by blast
qed auto

lemma recorded_later:
  "k < j \<Longrightarrow> key \<in> set (recorded_by j) \<Longrightarrow> key \<in> set (keys_from (Suc k))"
  by (auto simp: recorded_by_def keys_from_def)

lemma shape_nth:
  "k < 5 \<Longrightarrow> shape k x ! k = x"
  "k < 5 \<Longrightarrow> j < k \<Longrightarrow> shape k x ! j = Completed"
  "k < 5 \<Longrightarrow> k < j \<Longrightarrow> j < 5 \<Longrightarrow> shape k x ! j = Pending"
  "k < 5 \<Longrightarrow> length (shape k x) = 5"
  by (auto simp: shape_def nth_append nth_Cons')

lemma url_match_https:
  "url_match (''https://'' @ r) =
     (if takeWhile (\<lambda>c. \<not> is_space c) r = [] then None
      else Some (''https://'' @ takeWhile (\<lambda>c. \<not> is_space c) r))"
  by (simp add: url_match_def startswith_def Let_def)

lemma url_match_http:
  "url_match (''http://'' @ r) =
     (if takeWhile (\<lambda>c. \<not> is_space c) r = [] then None
      else Some (''http://'' @ takeWhile (\<lambda>c. \<not> is_space c) r))"
  by (simp add: url_match_def startswith_def Let_def)

lemma url_match_other:
  "\<not> startswith s ''https://'' \<Longrightarrow> \<not> startswith s ''http://'' \<Longrightarrow> url_match s = None"
  by (simp add: url_match_def)

lemma startswith_append: "startswith s p \<longleftrightarrow> (\<exists>r. s = p @ r)"
proof
  assume "startswith s p"
  then have "p @ drop (length p) s = s"
    unfolding startswith_def by (metis append_take_drop_id)
  then show "\<exists>r. s = p @ r" by metis
next
  assume "\<exists>r. s = p @ r"
  then show "startswith s p" by (auto simp: startswith_def)
qed

lemma url_shaped_cases:
  assumes "url_shaped u"
  obtains (http) r where "u = ''http://'' @ r" "r \<noteq> []" "\<forall>c\<in>set r. \<not> is_space c"
        | (https) r where "u = ''https://'' @ r" "r \<noteq> []" "\<forall>c\<in>set r. \<not> is_space c"
proof -
  from assms have
    "((\<exists>r. u = ''http://'' @ r) \<and> drop 7 u \<noteq> [] \<and> (\<forall>c\<in>set (drop 7 u). \<not> is_space c))
     \<or> ((\<exists>r. u = ''https://'' @ r) \<and> drop 8 u \<noteq> [] \<and> (\<forall>c\<in>set (drop 8 u). \<not> is_space c))"
    by (simp only: url_shaped_def startswith_append)
  then show thesis
  proof (elim disjE conjE exE)
    fix r assume u: "u = ''http://'' @ r"
      and d: "drop 7 u \<noteq> []" "\<forall>c\<in>set (drop 7 u). \<not> is_space c"
    have "drop 7 u = r" by (simp add: u)
    with d show thesis using http [OF u] by simp
  next
    fix r assume u: "u = ''https://'' @ r"
      and d: "drop 8 u \<noteq> []" "\<forall>c\<in>set (drop 8 u). \<not> is_space c"
    have "drop 8 u = r" by (simp add: u)
    with d show thesis using https [OF u] by simp
  qed
qed

lemma url_shaped_intro:
  "r \<noteq> [] \<Longrightarrow> \<forall>c\<in>set r. \<not> is_space c \<Longrightarrow>
   url_shaped (''http://'' @ r) \<and> url_shaped (''https://'' @ r)"
  by (simp add: url_shaped_def startswith_def)

lemma url_match_Some:
  assumes "url_match s = Some m"
  shows "\<exists>post. s = m @ post \<and> url_shaped m \<and> (post = [] \<or> is_space (hd post))"
proof -
  let ?ns = "\<lambda>c. \<not> is_space c"
  have body: "\<And>r. takeWhile ?ns r \<noteq> [] \<Longrightarrow>
      r = takeWhile ?ns r @ dropWhile ?ns r
      \<and> (\<forall>c\<in>set (takeWhile ?ns r). \<not> is_space c)
      \<and> (dropWhile ?ns r = [] \<or> is_space (hd (dropWhile ?ns r)))"
    using hd_dropWhile [of ?ns] by (auto dest: set_takeWhileD)
  consider (https) r where "s = ''https://'' @ r"
    | (http) r where "s = ''http://'' @ r"
    | (other) "\<not> startswith s ''https://''" "\<not> startswith s ''http://''"
    unfolding startswith_append by blast
  then show ?thesis
  proof cases
    case (https r)
    from assms have "url_match (''https://'' @ r) = Some m" unfolding https .
    then have "takeWhile ?ns r \<noteq> [] \<and> m = ''https://'' @ takeWhile ?ns r"
      unfolding url_match_https by (cases "takeWhile ?ns r = []") auto
    then have ne: "takeWhile ?ns r \<noteq> []" and m: "m = ''https://'' @ takeWhile ?ns r"
      by blast+
    from body [OF ne] have "s = m @ dropWhile ?ns r"
      unfolding https m by simp
    moreover have "url_shaped m"
      unfolding m using url_shaped_intro [OF ne] body [OF ne] by blast
    ultimately show ?thesis using body [OF ne] by blast
  next
    case (http r)
    from assms have "url_match (''http://'' @ r) = Some m" unfolding http .
    then have "takeWhile ?ns r \<noteq> [] \<and> m = ''http://'' @ takeWhile ?ns r"
      unfolding url_match_http by (cases "takeWhile ?ns r = []") auto
    then have ne: "takeWhile ?ns r \<noteq> []" and m: "m = ''http://'' @ takeWhile ?ns r"
      by blast+
    from body [OF ne] have "s = m @ dropWhile ?ns r"
      unfolding http m by simp
    moreover have "url_shaped m"
      unfolding m using url_shaped_intro [OF ne] body [OF ne] by blast
    ultimately show ?thesis using body [OF ne] by blast
  next
    case other
    with assms url_match_other show ?thesis by simp
  qed
qed

lemma url_match_None:
  assumes "url_match s = None" and "url_shaped u"
  shows "s \<noteq> u @ post"
proof
  assume s: "s = u @ post"
  from \<open>url_shaped u\<close> show False
  proof (cases rule: url_shaped_cases)
    case (http r)
    then obtain x xs where x: "r = x # xs" "\<not> is_space x"
      by (cases r) auto
    have "s = ''http://'' @ (x # xs @ post)" by (simp add: s http(1) x(1))
    then have "url_match s \<noteq> None"
      by (simp only: url_match_http) (simp add: x(2))
    with assms(1) show False by simp
  next
    case (https r)
    then obtain x xs where x: "r = x # xs" "\<not> is_space x"
      by (cases r) auto
    have "s = ''https://'' @ (x # xs @ post)" by (simp add: s https(1) x(1))
    then have "url_match s \<noteq> None"
      by (simp only: url_match_https) (simp add: x(2))
    with assms(1) show False by simp
  qed
qed

lemma findall_url_Nil:
  "findall_url s = [] \<Longrightarrow> url_shaped u \<Longrightarrow> s \<noteq> pre @ u @ post"
proof (induction s arbitrary: pre rule: findall_url.induct)
  case 1
  then show ?case by (auto simp: url_shaped_def startswith_def)

next
  case (2 c cs)
  from "2.prems"(1) have none: "url_match (c # cs) = None" and rest: "findall_url cs = []"
    by (auto simp: findall_url.simps split: option.splits)
  show ?case
  proof (cases pre)
    case Nil
    with url_match_None [OF none "2.prems"(2)] show ?thesis by simp
  next
    case (Cons a pre')
    with "2.IH"(1) [OF none rest "2.prems"(2), of pre'] show ?thesis by auto
  qed
qed

lemma findall_url_Cons:
  "findall_url s = m # ms \<Longrightarrow>
   \<exists>pre post. s = pre @ m @ post \<and> url_shaped m \<and> (post = [] \<or> is_space (hd post))
     \<and> (\<forall>pre' u' post'. s = pre' @ u' @ post' \<and> url_shaped u' \<longrightarrow> length pre \<le> length pre')"
proof (induction s rule: findall_url.induct)
  case 1
  then show ?case by (simp add: findall_url.simps)
next
  case (2 c cs)
  show ?case
  proof (cases "url_match (c # cs)")
    case (Some m')
    with "2.prems" have "m' = m" by (simp add: findall_url.simps)
    with url_match_Some [OF Some] obtain post where
      "c # cs = m @ post" "url_shaped m" "post = [] \<or> is_space (hd post)" by blast
    then have "c # cs = [] @ m @ post \<and> url_shaped m \<and> (post = [] \<or> is_space (hd post))
      \<and> (\<forall>pre' u' post'. c # cs = pre' @ u' @ post' \<and> url_shaped u' \<longrightarrow> length ([]::string) \<le> length pre')"
      by simp
    then show ?thesis by blast
  next
    case None
    with "2.prems" have "findall_url cs = m # ms" by (simp add: findall_url.simps)
    from "2.IH"(1) [OF None this] obtain pre post where
      cs: "cs = pre @ m @ post" and sh: "url_shaped m" and po: "post = [] \<or> is_space (hd post)"
      and mn: "\<forall>pre' u' post'. cs = pre' @ u' @ post' \<and> url_shaped u' \<longrightarrow> length pre \<le> length pre'"
      by blast
    have "\<forall>pre' u' post'. c # cs = pre' @ u' @ post' \<and> url_shaped u' \<longrightarrow> length (c # pre) \<le> length pre'"
    proof (intro allI impI)
      fix pre' u' post' assume a: "c # cs = pre' @ u' @ post' \<and> url_shaped u'"
      show "length (c # pre) \<le> length pre'"
      proof (cases pre')
        case Nil
        with a url_match_None [OF None, of u' post'] show ?thesis by simp
      next
        case (Cons a' p'')
        with a mn show ?thesis by auto
      qed
    qed
    with cs sh po have "c # cs = (c # pre) @ m @ post \<and> url_shaped m \<and> (post = [] \<or> is_space (hd post))
      \<and> (\<forall>pre' u' post'. c # cs = pre' @ u' @ post' \<and> url_shaped u' \<longrightarrow> length (c # pre) \<le> length pre')"
      by simp
    then show ?thesis by blast
  qed
qed

lemma state_os_proj [simp]:
  "self (s\<lparr>os := x\<rparr>) = self s" "os (s\<lparr>os := x\<rparr>) = x"
  by simp_all

lemma run_target_url:
  "target_url (self (run g c wid story w)) = Some (first_url_or_default story)"
  unfolding run_def
  by (rule execute_workflow_rule [where ?P0.0 = "\<lambda>s. user_story (self s) = story"
        and ?P1.0 = "\<lambda>s. target_url (self s) = Some (first_url_or_default story)"
        and ?P2.0 = "\<lambda>s. target_url (self s) = Some (first_url_or_default story)"
        and ?P3.0 = "\<lambda>s. target_url (self s) = Some (first_url_or_default story)"
        and ?P4.0 = "\<lambda>s. target_url (self s) = Some (first_url_or_default story)"
        and ?P5.0 = "\<lambda>s. target_url (self s) = Some (first_url_or_default story)"
        and Q = "\<lambda>s. target_url (self s) = Some (first_url_or_default story)"
        and R = "\<lambda>s. target_url (self s) = Some (first_url_or_default story)"])
     (simp_all add: stage_defs Let_def split: option.splits sum.splits)

lemma run_length: "length (steps (self (run g c wid story w))) = 5"
  using run_outcome [of g c wid story w] shape_nth(4)
  by (auto simp: failed_at_def sts_def dest: arg_cong [where f = length])

lemma run_status: "k < 5 \<Longrightarrow> status (steps (self (run g c wid story w)) ! k) = sts (self (run g c wid story w)) ! k"
  by (simp add: sts_nth run_length)

lemma happy_run:
  assumes "happy g w story"
  shows "results (self (run g c wid story w)) ''jmx_files'' = Some (Paths (jmx_scan w))
         \<and> take 4 (sts (self (run g c wid story w))) = [Completed, Completed, Completed, Completed]
         \<and> validator (self (run g c wid story w)) = validator (init_workflow g c wid story)"
  unfolding run_def
proof (rule execute_workflow_rule [where
        ?P0.0 = "\<lambda>s. at_stage 0 s \<and> os s = w \<and> user_story (self s) = story \<and> validator (self s) = validator (init_workflow g c wid story)"
    and ?P1.0 = "\<lambda>s. at_stage 1 s \<and> os s = w \<and> user_story (self s) = story \<and> validator (self s) = validator (init_workflow g c wid story)"
    and ?P2.0 = "\<lambda>s. at_stage 2 s \<and> same_oracles w s \<and> validator (self s) = validator (init_workflow g c wid story)"
    and ?P3.0 = "\<lambda>s. at_stage 3 s \<and> same_oracles w s \<and> validator (self s) = validator (init_workflow g c wid story)"
    and ?P4.0 = "\<lambda>s. results (self s) ''jmx_files'' = Some (Paths (jmx_scan w))
         \<and> sts (self s) = [Completed, Completed, Completed, Completed, Pending]
         \<and> validator (self s) = validator (init_workflow g c wid story)"
    and ?P5.0 = "\<lambda>s. results (self s) ''jmx_files'' = Some (Paths (jmx_scan w))
         \<and> take 4 (sts (self s)) = [Completed, Completed, Completed, Completed]
         \<and> validator (self s) = validator (init_workflow g c wid story)"
    and Q = "\<lambda>s. results (self s) ''jmx_files'' = Some (Paths (jmx_scan w))
         \<and> take 4 (sts (self s)) = [Completed, Completed, Completed, Completed]
         \<and> validator (self s) = validator (init_workflow g c wid story)"
    and R = "\<lambda>s. False"])
  show "at_stage 0 (assign (\<lambda>w. w\<lparr>wf_status := Running\<rparr>) (fresh g c wid story w)) \<and>
    os (assign (\<lambda>w. w\<lparr>wf_status := Running\<rparr>) (fresh g c wid story w)) = w \<and>
    user_story (self (assign (\<lambda>w. w\<lparr>wf_status := Running\<rparr>) (fresh g c wid story w))) = story \<and>
    validator (self (assign (\<lambda>w. w\<lparr>wf_status := Running\<rparr>) (fresh g c wid story w))) = validator (init_workflow g c wid story)"
    by (simp add: fresh_def at_defs shape_simps)
next
  fix s :: state
  assume "at_stage 0 s \<and> os s = w \<and> user_story (self s) = story \<and> validator (self s) = validator (init_workflow g c wid story)"
  then show "flow_all (\<lambda>s. at_stage 1 s \<and> os s = w \<and> user_story (self s) = story \<and> validator (self s) = validator (init_workflow g c wid story))
      (\<lambda>s. results (self s) ''jmx_files'' = Some (Paths (jmx_scan w))
         \<and> take 4 (sts (self s)) = [Completed, Completed, Completed, Completed]
         \<and> validator (self s) = validator (init_workflow g c wid story)) (\<lambda>s. False) (stage_planner s)"
    by (simp add: stage_planner_def Let_def at_defs shape_simps)
next
  fix s :: state
  assume "at_stage 1 s \<and> os s = w \<and> user_story (self s) = story \<and> validator (self s) = validator (init_workflow g c wid story)"
  with assms show "flow_all (\<lambda>s. at_stage 2 s \<and> same_oracles w s \<and> validator (self s) = validator (init_workflow g c wid story))
      (\<lambda>s. results (self s) ''jmx_files'' = Some (Paths (jmx_scan w))
         \<and> take 4 (sts (self s)) = [Completed, Completed, Completed, Completed]
         \<and> validator (self s) = validator (init_workflow g c wid story)) (\<lambda>s. False) (stage_network g s)"
    by (auto simp: happy_def stage_network_def Let_def set_result_def at_defs shape_simps
        same_oracles_def run_script_success)
next
  fix s :: state
  assume "at_stage 2 s \<and> same_oracles w s \<and> validator (self s) = validator (init_workflow g c wid story)"
  with assms show "flow_all (\<lambda>s. at_stage 3 s \<and> same_oracles w s \<and> validator (self s) = validator (init_workflow g c wid story))
      (\<lambda>s. results (self s) ''jmx_files'' = Some (Paths (jmx_scan w))
         \<and> take 4 (sts (self s)) = [Completed, Completed, Completed, Completed]
         \<and> validator (self s) = validator (init_workflow g c wid story)) (\<lambda>s. False) (stage_test_steps g s)"
    by (auto simp: happy_def stage_test_steps_def Let_def set_result_def at_defs shape_simps
        same_oracles_def run_script_success)
next
  fix s :: state
  assume "at_stage 3 s \<and> same_oracles w s \<and> validator (self s) = validator (init_workflow g c wid story)"
  with assms show "flow_all (\<lambda>s. results (self s) ''jmx_files'' = Some (Paths (jmx_scan w))
         \<and> sts (self s) = [Completed, Completed, Completed, Completed, Pending]
         \<and> validator (self s) = validator (init_workflow g c wid story))
      (\<lambda>s. results (self s) ''jmx_files'' = Some (Paths (jmx_scan w))
         \<and> take 4 (sts (self s)) = [Completed, Completed, Completed, Completed]
         \<and> validator (self s) = validator (init_workflow g c wid story)) (\<lambda>s. False) (stage_jmx g s)"
    by (auto simp: happy_def stage_jmx_def Let_def set_result_def at_defs shape_simps
        same_oracles_def run_script_success jmx_scan_def walk_files_def)
next
  fix s :: state
  assume "results (self s) ''jmx_files'' = Some (Paths (jmx_scan w))
         \<and> sts (self s) = [Completed, Completed, Completed, Completed, Pending]
         \<and> validator (self s) = validator (init_workflow g c wid story)"
  then show "flow_all (\<lambda>s. results (self s) ''jmx_files'' = Some (Paths (jmx_scan w))
         \<and> take 4 (sts (self s)) = [Completed, Completed, Completed, Completed]
         \<and> validator (self s) = validator (init_workflow g c wid story))
      (\<lambda>s. results (self s) ''jmx_files'' = Some (Paths (jmx_scan w))
         \<and> take 4 (sts (self s)) = [Completed, Completed, Completed, Completed]
         \<and> validator (self s) = validator (init_workflow g c wid story)) (\<lambda>s. False) (stage_validation g s)"
    by (simp add: stage_validation_def Let_def fail_step_def set_result_def
        split: sum.splits)
qed simp_all

lemma demo_two_urls:
  "first_url_or_default ''Open http://shop.test/cart then https://b.test'' = ''http://shop.test/cart''"
  by (simp add: first_url_or_default_def url_match_def startswith_def is_space_def
      Let_def findall_url.simps)

lemma demo_no_url: "first_url_or_default ''Test login'' = ''https://example.com''"
  by (simp add: first_url_or_default_def url_match_def startswith_def is_space_def
      Let_def findall_url.simps)

lemma no_scripts_run: "no_scripts_outcome w (run g c wid story w)"
  unfolding run_def
proof (rule execute_workflow_rule [where
        ?P0.0 = "\<lambda>s. at_stage 0 s \<and> unvalidated w s"
    and ?P1.0 = "\<lambda>s. at_stage 1 s \<and> unvalidated w s"
    and ?P2.0 = "\<lambda>s. at_stage 2 s \<and> unvalidated w s"
    and ?P3.0 = "\<lambda>s. at_stage 3 s \<and> unvalidated w s"
    and ?P4.0 = "\<lambda>s. at_stage 4 s \<and> unvalidated w s"
    and ?P5.0 = "no_scripts_outcome w"
    and Q = "no_scripts_outcome w"
    and R = "\<lambda>s. results (self s) ''jmx_files'' = None"])
  show "at_stage 0 (assign (\<lambda>w. w\<lparr>wf_status := Running\<rparr>) (fresh g c wid story w))
     \<and> unvalidated w (assign (\<lambda>w. w\<lparr>wf_status := Running\<rparr>) (fresh g c wid story w))"
    by (simp add: fresh_def at_defs shape_simps unvalidated_def)
next
  fix s :: state assume "at_stage 0 s \<and> unvalidated w s"
  then show "flow_all (\<lambda>s. at_stage 1 s \<and> unvalidated w s) (no_scripts_outcome w)
      (\<lambda>s. results (self s) ''jmx_files'' = None) (stage_planner s)"
    by (simp add: stage_planner_def Let_def at_defs shape_simps unvalidated_def)
next
  fix s :: state assume "at_stage 1 s \<and> unvalidated w s"
  then show "flow_all (\<lambda>s. at_stage 2 s \<and> unvalidated w s) (no_scripts_outcome w)
      (\<lambda>s. results (self s) ''jmx_files'' = None) (stage_network g s)"
    by (simp add: stage_network_def Let_def fail_step_def set_result_def at_defs shape_simps
        unvalidated_def no_scripts_outcome_def)
next
  fix s :: state assume "at_stage 2 s \<and> unvalidated w s"
  then show "flow_all (\<lambda>s. at_stage 3 s \<and> unvalidated w s) (no_scripts_outcome w)
      (\<lambda>s. results (self s) ''jmx_files'' = None) (stage_test_steps g s)"
    by (simp add: stage_test_steps_def Let_def fail_step_def set_result_def at_defs shape_simps
        unvalidated_def no_scripts_outcome_def split: option.splits)
next
  fix s :: state assume "at_stage 3 s \<and> unvalidated w s"
  then show "flow_all (\<lambda>s. at_stage 4 s \<and> unvalidated w s) (no_scripts_outcome w)
      (\<lambda>s. results (self s) ''jmx_files'' = None) (stage_jmx g s)"
    by (simp add: stage_jmx_def Let_def fail_step_def set_result_def at_defs shape_simps
        unvalidated_def no_scripts_outcome_def split: option.splits)
next
  fix s :: state assume "at_stage 4 s \<and> unvalidated w s"
  then show "flow_all (no_scripts_outcome w) (no_scripts_outcome w)
      (\<lambda>s. results (self s) ''jmx_files'' = None) (stage_validation g s)"
    by (auto simp: stage_validation_def Let_def fail_step_def set_result_def at_defs shape_simps
        unvalidated_def no_scripts_outcome_def get_jmx_files_def split: sum.splits)
next
  fix s :: state and e :: string assume "results (self s) ''jmx_files'' = None"
  then show "no_scripts_outcome w (handler (Raise e s))"
    by (simp add: no_scripts_outcome_def)
qed simp_all

lemma msgs_update [simp]:
  "msgs (update_step_status w i st m) =
     (if 0 \<le> i \<and> i < int (length (sts w)) then (msgs w)[nat i := m] else msgs w)"
  by (simp add: update_step_status_def sts_def msgs_def map_update)

lemma length_msgs [simp]: "length (msgs w) = length (sts w)"
  by (simp add: msgs_def sts_def)

lemma msgs_fields [simp]:
  "msgs (w\<lparr>wf_status := x\<rparr>) = msgs w"
  "msgs (w\<lparr>results := r\<rparr>) = msgs w"
  "msgs (w\<lparr>target_url := u\<rparr>) = msgs w"
  by (simp_all add: msgs_def)

lemma teststeps_run:
  assumes tsm: "test_steps_module g" and mk: "makedirs w ''TestSteps_Output'' = None"
    and ch: "child w ''TestSteps.py'' = Exited 0 out err"
  shows "sts (self (run g c wid story w)) ! 1 = Completed \<longrightarrow>
           sts (self (run g c wid story w)) ! 2 = Completed
           \<and> teststeps_recorded w (self (run g c wid story w))"
  unfolding run_def
proof (rule execute_workflow_rule [where
        ?P0.0 = "\<lambda>s. at_stage 0 s \<and> same_oracles w s"
    and ?P1.0 = "\<lambda>s. at_stage 1 s \<and> same_oracles w s"
    and ?P2.0 = "\<lambda>s. at_stage 2 s \<and> same_oracles w s"
    and ?P3.0 = "\<lambda>s. sts (self s) = [Completed, Completed, Completed, Pending, Pending]
                    \<and> teststeps_recorded w (self s)"
    and ?P4.0 = "\<lambda>s. sts (self s) = [Completed, Completed, Completed, Completed, Pending]
                    \<and> teststeps_recorded w (self s)"
    and ?P5.0 = "\<lambda>s. sts (self s) ! 1 = Completed \<longrightarrow>
                    sts (self s) ! 2 = Completed \<and> teststeps_recorded w (self s)"
    and Q = "\<lambda>s. sts (self s) ! 1 = Completed \<longrightarrow>
                    sts (self s) ! 2 = Completed \<and> teststeps_recorded w (self s)"
    and R = "\<lambda>s. sts (self s) = [Completed, Completed, Completed, Running, Pending]
                    \<and> current_step (self s) = 3 \<and> teststeps_recorded w (self s)"])
  show "at_stage 0 (assign (\<lambda>w. w\<lparr>wf_status := Running\<rparr>) (fresh g c wid story w))
     \<and> same_oracles w (assign (\<lambda>w. w\<lparr>wf_status := Running\<rparr>) (fresh g c wid story w))"
    by (simp add: fresh_def at_defs shape_simps same_oracles_def)
next
  fix s :: state assume "at_stage 0 s \<and> same_oracles w s"
  then show "flow_all (\<lambda>s. at_stage 1 s \<and> same_oracles w s)
      (\<lambda>s. sts (self s) ! 1 = Completed \<longrightarrow>
                    sts (self s) ! 2 = Completed \<and> teststeps_recorded w (self s))
      (\<lambda>s. sts (self s) = [Completed, Completed, Completed, Running, Pending]
                    \<and> current_step (self s) = 3 \<and> teststeps_recorded w (self s)) (stage_planner s)"
    by (simp add: stage_planner_def Let_def at_defs shape_simps same_oracles_def)
next
  fix s :: state assume "at_stage 1 s \<and> same_oracles w s"
  then show "flow_all (\<lambda>s. at_stage 2 s \<and> same_oracles w s)
      (\<lambda>s. sts (self s) ! 1 = Completed \<longrightarrow>
                    sts (self s) ! 2 = Completed \<and> teststeps_recorded w (self s))
      (\<lambda>s. sts (self s) = [Completed, Completed, Completed, Running, Pending]
                    \<and> current_step (self s) = 3 \<and> teststeps_recorded w (self s)) (stage_network g s)"
    by (simp add: stage_network_def Let_def fail_step_def set_result_def at_defs shape_simps
        same_oracles_def)
next
  fix s :: state assume "at_stage 2 s \<and> same_oracles w s"
  with tsm mk ch show "flow_all (\<lambda>s. sts (self s) = [Completed, Completed, Completed, Pending, Pending]
                    \<and> teststeps_recorded w (self s))
      (\<lambda>s. sts (self s) ! 1 = Completed \<longrightarrow>
                    sts (self s) ! 2 = Completed \<and> teststeps_recorded w (self s))
      (\<lambda>s. sts (self s) = [Completed, Completed, Completed, Running, Pending]
                    \<and> current_step (self s) = 3 \<and> teststeps_recorded w (self s)) (stage_test_steps g s)"
    by (simp add: stage_test_steps_def Let_def set_result_def at_defs shape_simps
        same_oracles_def run_script_success teststeps_recorded_def teststeps_found_def
        teststeps_actual_def walk_files_def add_missing_def)
next
  fix s :: state assume "sts (self s) = [Completed, Completed, Completed, Pending, Pending]
                    \<and> teststeps_recorded w (self s)"
  then show "flow_all (\<lambda>s. sts (self s) = [Completed, Completed, Completed, Completed, Pending]
                    \<and> teststeps_recorded w (self s))
      (\<lambda>s. sts (self s) ! 1 = Completed \<longrightarrow>
                    sts (self s) ! 2 = Completed \<and> teststeps_recorded w (self s))
      (\<lambda>s. sts (self s) = [Completed, Completed, Completed, Running, Pending]
                    \<and> current_step (self s) = 3 \<and> teststeps_recorded w (self s)) (stage_jmx g s)"
    by (simp add: stage_jmx_def Let_def fail_step_def set_result_def teststeps_recorded_def
        split: option.splits)
next
  fix s :: state assume "sts (self s) = [Completed, Completed, Completed, Completed, Pending]
                    \<and> teststeps_recorded w (self s)"
  then show "flow_all (\<lambda>s. sts (self s) ! 1 = Completed \<longrightarrow>
                    sts (self s) ! 2 = Completed \<and> teststeps_recorded w (self s))
      (\<lambda>s. sts (self s) ! 1 = Completed \<longrightarrow>
                    sts (self s) ! 2 = Completed \<and> teststeps_recorded w (self s))
      (\<lambda>s. sts (self s) = [Completed, Completed, Completed, Running, Pending]
                    \<and> current_step (self s) = 3 \<and> teststeps_recorded w (self s)) (stage_validation g s)"
    by (simp add: stage_validation_def Let_def fail_step_def set_result_def teststeps_recorded_def
        split: sum.splits)
next
  fix s :: state and e :: string
  assume "sts (self s) = [Completed, Completed, Completed, Running, Pending]
                    \<and> current_step (self s) = 3 \<and> teststeps_recorded w (self s)"
  then show "sts (self (handler (Raise e s))) ! 1 = Completed \<longrightarrow>
      sts (self (handler (Raise e s))) ! 2 = Completed \<and> teststeps_recorded w (self (handler (Raise e s)))"
    by (simp add: teststeps_recorded_def)
qed simp_all







lemma demo_happy:
  "log_py w = Some ''import os'' \<Longrightarrow> log_py_writable w \<Longrightarrow>
   child w = (\<lambda>script. Exited 0 ''ok'' []) \<Longrightarrow> makedirs w = (\<lambda>p. None) \<Longrightarrow>
   happy demo_globals w demo_story"
  by (simp add: happy_def demo_update)


lemma demo_validator: "validator (init_workflow demo_globals True wid story)"
  by (simp add: init_workflow_def MODULES_AVAILABLE_def)

lemma take4_nth1: "take 4 xs = [a, b, c, d] \<Longrightarrow> xs ! 1 = b"
  by (metis nth_take nth_Cons_0 nth_Cons_Suc One_nat_def one_less_numeral_iff semiring_norm(76))

lemma observable_assign: "observable (assign f s) = observable s @ [f (self s)]"
  by (simp add: observable_def assign_def)

lemma observable_os [simp]: "observable (s\<lparr>os := x\<rparr>) = observable s"
  by (simp add: observable_def)

lemma observable_last [simp]: "last (observable s) = self s" "observable s \<noteq> []"
  by (simp_all add: observable_def)

lemma observable_fresh [simp]: "observable (fresh g c wid story w) = [init_workflow g c wid story]"
  by (simp add: observable_def fresh_def)

lemma trace_ok_snoc:
  "tr \<noteq> [] \<Longrightarrow> trace_ok g v (tr @ [w]) \<longleftrightarrow>
     trace_ok g v tr \<and> length (sts w) = 5 \<and> running_ok (sts w) \<and> moves_ok g v (sts (last tr)) (sts w)"
  by (auto simp: trace_ok_def successively_append_iff)

lemma trace_ok_assign [simp]:
  "trace_ok g v (observable (assign f s)) \<longleftrightarrow>
     trace_ok g v (observable s) \<and> length (sts (f (self s))) = 5 \<and> running_ok (sts (f (self s)))
     \<and> moves_ok g v (sts (self s)) (sts (f (self s)))"
  by (simp add: trace_ok_snoc observable_assign)

lemma all_less_5: "(\<forall>i<5. P i) \<longleftrightarrow> P 0 \<and> P 1 \<and> P 2 \<and> P 3 \<and> P (4::nat)"
proof -
  have "\<And>i::nat. i < 5 \<longleftrightarrow> i = 0 \<or> i = 1 \<or> i = 2 \<or> i = 3 \<or> i = 4" by auto
  then show ?thesis by auto
qed

lemma running_ok_5:
  "running_ok [a, b, c, d, e] \<longleftrightarrow>
     (a = Running \<longrightarrow> b \<noteq> Running \<and> c \<noteq> Running \<and> d \<noteq> Running \<and> e \<noteq> Running)
     \<and> (b = Running \<longrightarrow> c \<noteq> Running \<and> d \<noteq> Running \<and> e \<noteq> Running \<and> (a = Completed \<or> a = Failed))
     \<and> (c = Running \<longrightarrow> d \<noteq> Running \<and> e \<noteq> Running \<and> (a = Completed \<or> a = Failed) \<and> (b = Completed \<or> b = Failed))
     \<and> (d = Running \<longrightarrow> e \<noteq> Running \<and> (a = Completed \<or> a = Failed) \<and> (b = Completed \<or> b = Failed) \<and> (c = Completed \<or> c = Failed))
     \<and> (e = Running \<longrightarrow> (a = Completed \<or> a = Failed) \<and> (b = Completed \<or> b = Failed) \<and> (c = Completed \<or> c = Failed) \<and> (d = Completed \<or> d = Failed))"
proof -
  have l: "length [a, b, c, d, e] = 5" by simp
  have lt: "\<And>P. (\<forall>j<(0::nat). P j)" "\<And>P. (\<forall>j<(1::nat). P j) \<longleftrightarrow> P 0"
    "\<And>P. (\<forall>j<(2::nat). P j) \<longleftrightarrow> P 0 \<and> P 1" "\<And>P. (\<forall>j<(3::nat). P j) \<longleftrightarrow> P 0 \<and> P 1 \<and> P 2"
    "\<And>P. (\<forall>j<(4::nat). P j) \<longleftrightarrow> P 0 \<and> P 1 \<and> P 2 \<and> P 3"
    by (auto simp: less_Suc_eq numeral_eq_Suc)
  show ?thesis
    unfolding running_ok_def l all_less_5
    apply (simp only: lt)
    apply simp
    apply blast
    done
qed

lemma moves_ok_5:
  "moves_ok g v [a, b, c, d, e] [a', b', c', d', e'] \<longleftrightarrow>
     step_move g v 0 a a' \<and> step_move g v 1 b b' \<and> step_move g v 2 c c'
     \<and> step_move g v 3 d d' \<and> step_move g v 4 e e'"
  by (simp add: moves_ok_def all_less_5)

lemmas trace_simps = tracked_def raised_running_def at_defs shape_simps running_ok_5 moves_ok_5
  step_move_def collaborator_missing_def fail_step_def set_result_def Let_def

lemma planner_trace:
  "tracked g v 0 s \<Longrightarrow>
   flow_all (tracked g v 1) (\<lambda>s. trace_ok g v (observable s)) (raised_running g v) (stage_planner s)"
  by (simp add: stage_planner_def trace_simps)

lemma network_trace:
  "tracked g v 1 s \<Longrightarrow>
   flow_all (tracked g v 2) (\<lambda>s. trace_ok g v (observable s)) (raised_running g v) (stage_network g s)"
  by (simp add: stage_network_def trace_simps)

lemma test_steps_trace:
  "tracked g v 2 s \<Longrightarrow>
   flow_all (tracked g v 3) (\<lambda>s. trace_ok g v (observable s)) (raised_running g v)
     (stage_test_steps g s)"
  by (simp add: stage_test_steps_def trace_simps split: option.splits)

lemma jmx_trace:
  "tracked g v 3 s \<Longrightarrow>
   flow_all (tracked g v 4) (\<lambda>s. trace_ok g v (observable s)) (raised_running g v) (stage_jmx g s)"
  by (simp add: stage_jmx_def trace_simps split: option.splits)

lemma validation_trace:
  "tracked g v 4 s \<Longrightarrow>
   flow_all (\<lambda>s. trace_ok g v (observable s)) (\<lambda>s. trace_ok g v (observable s)) (raised_running g v)
     (stage_validation g s)"
  by (auto simp: stage_validation_def trace_simps split: sum.splits)

lemma handler_trace:
  "raised_running g v s \<Longrightarrow> trace_ok g v (observable (handler (Raise e s)))"
  by (auto simp: trace_simps)

lemma run_trace:
  "trace_ok g (validator (init_workflow g c wid story)) (observable (run g c wid story w))"
  unfolding run_def
proof (rule execute_workflow_rule [where ?P0.0 = "tracked g (validator (init_workflow g c wid story)) 0"
        and ?P1.0 = "tracked g (validator (init_workflow g c wid story)) 1"
        and ?P2.0 = "tracked g (validator (init_workflow g c wid story)) 2"
        and ?P3.0 = "tracked g (validator (init_workflow g c wid story)) 3"
        and ?P4.0 = "tracked g (validator (init_workflow g c wid story)) 4"
        and ?P5.0 = "\<lambda>s. trace_ok g (validator (init_workflow g c wid story)) (observable s)"
        and Q = "\<lambda>s. trace_ok g (validator (init_workflow g c wid story)) (observable s)"
        and R = "raised_running g (validator (init_workflow g c wid story))"])
  show "tracked g (validator (init_workflow g c wid story)) 0
          (assign (\<lambda>w. w\<lparr>wf_status := Running\<rparr>) (fresh g c wid story w))"
  proof -
    have "trace_ok g (validator (init_workflow g c wid story)) [init_workflow g c wid story]"
      by (simp add: trace_ok_def running_ok_5)
    moreover have "self (fresh g c wid story w) = init_workflow g c wid story"
      by (simp add: fresh_def)
    ultimately show ?thesis
      by (simp add: trace_simps)
  qed
qed (assumption | erule planner_trace network_trace test_steps_trace jmx_trace validation_trace
       handler_trace)+

lemma step_move_terminal:
  "step_move g v i a b \<Longrightarrow> a = Completed \<or> a = Failed \<Longrightarrow> b = a"
  by (auto simp: step_move_def)

lemma trace_ok_terminal:
  assumes "trace_ok g v tr" "i < 5" "sts (tr ! m) ! i = Completed \<or> sts (tr ! m) ! i = Failed"
  shows "m \<le> n \<Longrightarrow> n < length tr \<Longrightarrow> sts (tr ! n) ! i = sts (tr ! m) ! i"
proof (induction n)
  case 0
  then show ?case by simp
next
  case (Suc n)
  show ?case
  proof (cases "m = Suc n")
    case True
    then show ?thesis by simp
  next
    case False
    with Suc have ih: "sts (tr ! n) ! i = sts (tr ! m) ! i" by simp
    from assms(1) Suc.prems(2) have "moves_ok g v (sts (tr ! n)) (sts (tr ! Suc n))"
      by (simp add: trace_ok_def successively_conv_nth)
    with assms(2) have "step_move g v i (sts (tr ! n) ! i) (sts (tr ! Suc n) ! i)"
      by (simp add: moves_ok_def)
    from step_move_terminal [OF this] ih assms(3) show ?thesis by simp
  qed
qed

lemma quiet_assign [simp]: "quiet k (assign f s) \<longleftrightarrow> quiet k s \<and> sts (f (self s)) ! k \<noteq> Running"
  by (auto simp: quiet_def observable_assign)

lemma quiet_os [simp]: "quiet k (s\<lparr>os := x\<rparr>) = quiet k s"
  by (simp add: quiet_def)

lemma begins_assign [simp]: "begins pre s \<Longrightarrow> begins pre (assign f s)"
  by (auto simp: begins_def observable_assign)

lemma begins_os [simp]: "begins pre (s\<lparr>os := x\<rparr>) = begins pre s"
  by (simp add: begins_def)

lemma fresh_proj [simp]:
  "self (fresh g c wid story w) = init_workflow g c wid story" "os (fresh g c wid story w) = w"
  by (simp_all add: fresh_def)

lemma no_validator_run:
  assumes "happy g w story" and nv: "\<not> validator (init_workflow g c wid story)"
  shows "quiet 4 (run g c wid story w) \<and> sts (self (run g c wid story w)) ! 4 = Failed"
  unfolding run_def
proof (rule execute_workflow_rule [where
        ?P0.0 = "\<lambda>s. at_stage 0 s \<and> quiet 4 s \<and> \<not> validator (self s) \<and> os s = w \<and> user_story (self s) = story"
    and ?P1.0 = "\<lambda>s. at_stage 1 s \<and> quiet 4 s \<and> \<not> validator (self s) \<and> os s = w \<and> user_story (self s) = story"
    and ?P2.0 = "\<lambda>s. at_stage 2 s \<and> quiet 4 s \<and> \<not> validator (self s) \<and> same_oracles w s"
    and ?P3.0 = "\<lambda>s. at_stage 3 s \<and> quiet 4 s \<and> \<not> validator (self s) \<and> same_oracles w s"
    and ?P4.0 = "\<lambda>s. at_stage 4 s \<and> quiet 4 s \<and> \<not> validator (self s)"
    and ?P5.0 = "\<lambda>s. quiet 4 s \<and> sts (self s) ! 4 = Failed"
    and Q = "\<lambda>s. quiet 4 s \<and> sts (self s) ! 4 = Failed"
    and R = "\<lambda>s. False"])
  show "at_stage 0 (assign (\<lambda>w. w\<lparr>wf_status := Running\<rparr>) (fresh g c wid story w))
     \<and> quiet 4 (assign (\<lambda>w. w\<lparr>wf_status := Running\<rparr>) (fresh g c wid story w))
     \<and> \<not> validator (self (assign (\<lambda>w. w\<lparr>wf_status := Running\<rparr>) (fresh g c wid story w)))
     \<and> os (assign (\<lambda>w. w\<lparr>wf_status := Running\<rparr>) (fresh g c wid story w)) = w
     \<and> user_story (self (assign (\<lambda>w. w\<lparr>wf_status := Running\<rparr>) (fresh g c wid story w))) = story"
  proof -
    have "quiet 4 (fresh g c wid story w)" by (simp add: quiet_def)
    moreover have "self (fresh g c wid story w) = init_workflow g c wid story"
      "os (fresh g c wid story w) = w" by (simp_all add: fresh_def)
    ultimately show ?thesis using nv by (simp add: at_defs shape_simps)
  qed
next
  fix s :: state
  assume "at_stage 0 s \<and> quiet 4 s \<and> \<not> validator (self s) \<and> os s = w \<and> user_story (self s) = story"
  then show "flow_all (\<lambda>s. at_stage 1 s \<and> quiet 4 s \<and> \<not> validator (self s) \<and> os s = w \<and> user_story (self s) = story)
      (\<lambda>s. quiet 4 s \<and> sts (self s) ! 4 = Failed) (\<lambda>s. False) (stage_planner s)"
    by (simp add: stage_planner_def Let_def at_defs shape_simps)
next
  fix s :: state
  assume "at_stage 1 s \<and> quiet 4 s \<and> \<not> validator (self s) \<and> os s = w \<and> user_story (self s) = story"
  with assms(1) show "flow_all (\<lambda>s. at_stage 2 s \<and> quiet 4 s \<and> \<not> validator (self s) \<and> same_oracles w s)
      (\<lambda>s. quiet 4 s \<and> sts (self s) ! 4 = Failed) (\<lambda>s. False) (stage_network g s)"
    by (auto simp: happy_def stage_network_def Let_def set_result_def at_defs shape_simps
        same_oracles_def run_script_success)
next
  fix s :: state
  assume "at_stage 2 s \<and> quiet 4 s \<and> \<not> validator (self s) \<and> same_oracles w s"
  with assms(1) show "flow_all (\<lambda>s. at_stage 3 s \<and> quiet 4 s \<and> \<not> validator (self s) \<and> same_oracles w s)
      (\<lambda>s. quiet 4 s \<and> sts (self s) ! 4 = Failed) (\<lambda>s. False) (stage_test_steps g s)"
    by (auto simp: happy_def stage_test_steps_def Let_def set_result_def at_defs shape_simps
        same_oracles_def run_script_success)
next
  fix s :: state
  assume "at_stage 3 s \<and> quiet 4 s \<and> \<not> validator (self s) \<and> same_oracles w s"
  with assms(1) show "flow_all (\<lambda>s. at_stage 4 s \<and> quiet 4 s \<and> \<not> validator (self s))
      (\<lambda>s. quiet 4 s \<and> sts (self s) ! 4 = Failed) (\<lambda>s. False) (stage_jmx g s)"
    by (auto simp: happy_def stage_jmx_def Let_def set_result_def at_defs shape_simps
        same_oracles_def run_script_success)
next
  fix s :: state
  assume "at_stage 4 s \<and> quiet 4 s \<and> \<not> validator (self s)"
  then show "flow_all (\<lambda>s. quiet 4 s \<and> sts (self s) ! 4 = Failed)
      (\<lambda>s. quiet 4 s \<and> sts (self s) ! 4 = Failed) (\<lambda>s. False) (stage_validation g s)"
    by (simp add: stage_validation_def Let_def fail_step_def at_defs shape_simps)
qed simp_all

lemma quiet_never_running:
  assumes "trace_ok g v (observable s)" "quiet k s" "k < 5"
  shows "never_running k (observable s)"
proof -
  have "\<And>wf. wf \<in> set (observable s) \<Longrightarrow> sts wf ! k = status (steps wf ! k)"
    using assms(1,3) by (auto simp: trace_ok_def sts_def)
  with assms(2) show ?thesis
    by (auto simp: quiet_def never_running_def list_all_iff)
qed

lemma run_begins:
  "begins [init_workflow g c wid story, (init_workflow g c wid story)\<lparr>wf_status := Running\<rparr>,
           update_step_status ((init_workflow g c wid story)\<lparr>wf_status := Running\<rparr>) 0 Running
             ''Analyzing user story and planning automation sequence...'']
     (run g c wid story w)"
  (is "begins ?pre _")
  unfolding run_def
proof (rule execute_workflow_rule [where
        ?P0.0 = "\<lambda>s. observable s = take 2 ?pre"
    and ?P1.0 = "begins ?pre" and ?P2.0 = "begins ?pre" and ?P3.0 = "begins ?pre"
    and ?P4.0 = "begins ?pre" and ?P5.0 = "begins ?pre" and Q = "begins ?pre"
    and R = "begins ?pre"])
  show "observable (assign (\<lambda>w. w\<lparr>wf_status := Running\<rparr>) (fresh g c wid story w)) = take 2 ?pre"
    by (simp add: observable_assign)
next
  fix s :: state assume a: "observable s = take 2 ?pre"
  then have "self s = (init_workflow g c wid story)\<lparr>wf_status := Running\<rparr>"
    using observable_last(1) [of s] by simp
  with a show "flow_all (begins ?pre) (begins ?pre) (begins ?pre) (stage_planner s)"
    by (simp add: stage_planner_def Let_def begins_def observable_assign)
next
  fix s :: state assume "begins ?pre s"
  then show "flow_all (begins ?pre) (begins ?pre) (begins ?pre) (stage_network g s)"
    by (simp add: stage_network_def Let_def fail_step_def set_result_def)
next
  fix s :: state assume "begins ?pre s"
  then show "flow_all (begins ?pre) (begins ?pre) (begins ?pre) (stage_test_steps g s)"
    by (simp add: stage_test_steps_def Let_def fail_step_def set_result_def split: option.splits)
next
  fix s :: state assume "begins ?pre s"
  then show "flow_all (begins ?pre) (begins ?pre) (begins ?pre) (stage_jmx g s)"
    by (simp add: stage_jmx_def Let_def fail_step_def set_result_def split: option.splits)
next
  fix s :: state assume "begins ?pre s"
  then show "flow_all (begins ?pre) (begins ?pre) (begins ?pre) (stage_validation g s)"
    by (simp add: stage_validation_def Let_def fail_step_def set_result_def split: sum.splits)
qed simp_all

subsection \<open>Submissions\<close>






subsection \<open>The task pattern and the writer\<close>































lemma opener_free_search: "opener_free s \<Longrightarrow> \<not> re_search_task s"
  by (induction s) (auto simp: re_search_task.simps task_match_def)













section \<open>Properties\<close>

text \<open>
  C10. An index below zero or not below the number of steps makes \<open>update_step_status\<close>
  return the workflow as it was: no step, message or current step index changes. The
  function has no failing branch.
\<close>

theorem update_step_status_out_of_range:
  "i < 0 \<or> int (length (steps w)) \<le> i \<Longrightarrow> update_step_status w i st msg = w"
  by (auto simp: update_step_status_def)

theorem update_step_status_out_of_range_witness:
  "update_step_status (init_workflow demo_globals True ''w1'' demo_story) 5 Failed ''x''
     = init_workflow demo_globals True ''w1'' demo_story
   \<and> update_step_status (init_workflow demo_globals True ''w1'' demo_story) (- 1) Running ''y''
     = init_workflow demo_globals True ''w1'' demo_story"
  using update_step_status_out_of_range
          [of 5 "init_workflow demo_globals True ''w1'' demo_story" Failed "''x''"]
        update_step_status_out_of_range
          [of "- 1" "init_workflow demo_globals True ''w1'' demo_story" Running "''y''"]
  by (simp add: init_workflow_def init_steps_def)



text \<open>
  C1. When a run has returned and step \<open>k\<close> is the first step marked failed, the workflow
  status is failed, every step behind \<open>k\<close> is pending, and \<open>results\<close> has no entry under a
  key that a stage behind \<open>k\<close> records.
\<close>

theorem fail_fast:
  "\<forall>k<5. status (steps (self (run g c wid story w)) ! k) = Failed
           \<and> (\<forall>j<k. status (steps (self (run g c wid story w)) ! j) \<noteq> Failed) \<longrightarrow>
     wf_status (self (run g c wid story w)) = Failed
     \<and> (\<forall>j. k < j \<and> j < 5 \<longrightarrow> status (steps (self (run g c wid story w)) ! j) = Pending)
     \<and> (\<forall>j key. k < j \<and> key \<in> set (recorded_by j) \<longrightarrow>
          results (self (run g c wid story w)) key = None)"
proof (intro allI impI)
  fix k :: nat
  let ?f = "self (run g c wid story w)"
  assume k: "k < 5"
    and fk: "status (steps ?f ! k) = Failed \<and> (\<forall>j<k. status (steps ?f ! j) \<noteq> Failed)"
  from run_outcome [of g c wid story w]
  show "wf_status ?f = Failed \<and> (\<forall>j. k < j \<and> j < 5 \<longrightarrow> status (steps ?f ! j) = Pending)
     \<and> (\<forall>j key. k < j \<and> key \<in> set (recorded_by j) \<longrightarrow> results ?f key = None)"
  proof
    assume "\<exists>k<5. failed_at k (run g c wid story w)"
    then obtain m where m: "m < 5" and sh: "sts ?f = shape m Failed"
      and wf: "wf_status ?f = Failed" and fr: "free_from (Suc m) ?f"
      by (auto simp: failed_at_def)
    from sh m have len: "length (steps ?f) = 5"
      using shape_nth(4) [of m Failed] by (simp add: sts_def [symmetric]) (metis length_map sts_def)
    have nth: "\<And>i. i < 5 \<Longrightarrow> status (steps ?f ! i) = shape m Failed ! i"
      using sts_nth [of _ ?f] len sh by simp
    have "k = m"
    proof (rule ccontr)
      assume "k \<noteq> m"
      then consider "k < m" | "m < k" by linarith
      then show False
      proof cases
        case 1 with fk nth [of k] shape_nth(2) [of m k Failed] k m show False by simp
      next
        case 2 with fk nth [of m] shape_nth(1) [of m Failed] m show False by simp
      qed
    qed
    with wf fr nth m show ?thesis
      by (auto simp: shape_nth free_from_def dest: recorded_later)
  next
    assume "sts ?f = replicate 5 Completed"
    then have "length (steps ?f) = 5" "\<And>i. i < 5 \<Longrightarrow> status (steps ?f ! i) = Completed"
      using sts_nth [of _ ?f] by (auto simp: sts_def dest: arg_cong [where f = length])
    with k fk show ?thesis by auto
  qed
qed

theorem fail_fast_witness:
  "status (steps (self (run demo_globals True ''w1'' demo_story
       (demo_world\<lparr>child := (\<lambda>s. Exited 1 [] ''boom'')\<rparr>))) ! 1) = Failed
   \<and> wf_status (self (run demo_globals True ''w1'' demo_story
       (demo_world\<lparr>child := (\<lambda>s. Exited 1 [] ''boom'')\<rparr>))) = Failed
   \<and> status (steps (self (run demo_globals True ''w1'' demo_story
       (demo_world\<lparr>child := (\<lambda>s. Exited 1 [] ''boom'')\<rparr>))) ! 4) = Pending
   \<and> results (self (run demo_globals True ''w1'' demo_story
       (demo_world\<lparr>child := (\<lambda>s. Exited 1 [] ''boom'')\<rparr>))) ''validation'' = None"
proof -
  let ?f = "self (run demo_globals True ''w1'' demo_story
       (demo_world\<lparr>child := (\<lambda>s. Exited 1 [] ''boom'')\<rparr>))"
  have s: "sts ?f = [Completed, Failed, Pending, Pending, Pending]"
    by (simp add: run_def stage_defs Let_def demo_update run_script_success)
  then have "length (steps ?f) = 5"
    by (auto simp: sts_def dest: arg_cong [where f = length])
  with s have st: "status (steps ?f ! 0) = Completed" "status (steps ?f ! 1) = Failed"
    using sts_nth [of 0 ?f] sts_nth [of 1 ?f] by simp_all
  have key: "''validation'' \<in> set (recorded_by 4)"
    by (simp add: recorded_by_def result_keys_def)
  from fail_fast [of demo_globals True "''w1''" demo_story
      "demo_world\<lparr>child := (\<lambda>s. Exited 1 [] ''boom'')\<rparr>", THEN spec, of 1] st
  have c: "wf_status ?f = Failed
     \<and> (\<forall>j. 1 < j \<and> j < 5 \<longrightarrow> status (steps ?f ! j) = Pending)
     \<and> (\<forall>j key. 1 < j \<and> key \<in> set (recorded_by j) \<longrightarrow> results ?f key = None)"
    by simp
  then have "1 < (4::nat) \<and> (4::nat) < 5 \<longrightarrow> status (steps ?f ! 4) = Pending"
    and "1 < (4::nat) \<and> ''validation'' \<in> set (recorded_by 4) \<longrightarrow> results ?f ''validation'' = None"
    by blast+
  with c key st show ?thesis by simp
qed

text \<open>
  C3. The \<open>target_url\<close> of a workflow that has run is \<open>first_url_or_default\<close> of its story.
  When the story has a substring of the URL shape (\<open>http://\<close> or \<open>https://\<close>, then one or
  more characters that are not white space), that value is such a substring, no such
  substring starts further left, and it runs on to the next white space or to the end of
  the story; when the story has none, it is \<open>https://example.com\<close>.
\<close>

theorem url_extraction:
  "target_url (self (run g c wid story w)) = Some (first_url_or_default story)
   \<and> ((\<exists>pre u post. story = pre @ u @ post \<and> url_shaped u) \<longrightarrow>
        (\<exists>pre post. story = pre @ first_url_or_default story @ post
           \<and> url_shaped (first_url_or_default story)
           \<and> (post = [] \<or> is_space (hd post))
           \<and> (\<forall>pre' u' post'. story = pre' @ u' @ post' \<and> url_shaped u' \<longrightarrow>
                  length pre \<le> length pre')))
   \<and> (\<not> (\<exists>pre u post. story = pre @ u @ post \<and> url_shaped u) \<longrightarrow>
        first_url_or_default story = ''https://example.com'')"
proof (intro conjI impI)
  show "target_url (self (run g c wid story w)) = Some (first_url_or_default story)"
    by (rule run_target_url)
next
  assume ex: "\<exists>pre u post. story = pre @ u @ post \<and> url_shaped u"
  show "\<exists>pre post. story = pre @ first_url_or_default story @ post
           \<and> url_shaped (first_url_or_default story)
           \<and> (post = [] \<or> is_space (hd post))
           \<and> (\<forall>pre' u' post'. story = pre' @ u' @ post' \<and> url_shaped u' \<longrightarrow>
                  length pre \<le> length pre')"
  proof (cases "findall_url story")
    case Nil
    with ex findall_url_Nil show ?thesis by blast
  next
    case (Cons m ms)
    then have "first_url_or_default story = m" by (simp add: first_url_or_default_def)
    with findall_url_Cons [OF Cons] show ?thesis by simp
  qed
next
  assume no: "\<not> (\<exists>pre u post. story = pre @ u @ post \<and> url_shaped u)"
  show "first_url_or_default story = ''https://example.com''"
  proof (cases "findall_url story")
    case Nil
    then show ?thesis by (simp add: first_url_or_default_def)
  next
    case (Cons m ms)
    with findall_url_Cons [OF Cons] no show ?thesis by blast
  qed
qed

theorem url_extraction_witness:
  "url_shaped ''http://shop.test/cart''
   \<and> target_url (self (run demo_globals True ''w1''
        ''Open http://shop.test/cart then https://b.test'' demo_world)) = Some ''http://shop.test/cart''
   \<and> (\<exists>pre post. ''Open http://shop.test/cart then https://b.test''
          = pre @ ''http://shop.test/cart'' @ post \<and> (post = [] \<or> is_space (hd post)))
   \<and> target_url (self (run demo_globals True ''w1'' ''Test login'' demo_world))
        = Some ''https://example.com''"
proof -
  have sh: "url_shaped ''http://shop.test/cart''"
    by (simp add: url_shaped_def startswith_def is_space_def)
  have "''Open http://shop.test/cart then https://b.test''
      = ''Open '' @ ''http://shop.test/cart'' @ '' then https://b.test''" by simp
  with sh have ex: "\<exists>pre u post. ''Open http://shop.test/cart then https://b.test'' = pre @ u @ post
      \<and> url_shaped u" by blast
  from url_extraction [of demo_globals True "''w1''"
      "''Open http://shop.test/cart then https://b.test''" demo_world] ex
  have a: "target_url (self (run demo_globals True ''w1''
        ''Open http://shop.test/cart then https://b.test'' demo_world)) = Some ''http://shop.test/cart''"
    and b: "\<exists>pre post. ''Open http://shop.test/cart then https://b.test''
          = pre @ ''http://shop.test/cart'' @ post \<and> (post = [] \<or> is_space (hd post))"
    unfolding demo_two_urls by blast+
  from url_extraction [of demo_globals True "''w1''" "''Test login''" demo_world]
  have "target_url (self (run demo_globals True ''w1'' ''Test login'' demo_world))
        = Some ''https://example.com''"
    unfolding demo_no_url by blast
  with sh a b show ?thesis by blast
qed



text \<open>
  C8. When the script-generation stage has succeeded and its scan found no script
  (\<open>results['jmx_files']\<close> is the empty list), the validation step is failed, the workflow
  status is failed, and \<open>validate_jmx_file\<close> has not been called.
\<close>

theorem no_scripts_fails_validation:
  "results (self (run g c wid story w)) ''jmx_files'' = Some (Paths []) \<Longrightarrow>
     status (steps (self (run g c wid story w)) ! 4) = Failed
     \<and> wf_status (self (run g c wid story w)) = Failed
     \<and> validated (os (run g c wid story w)) = validated w"
  using no_scripts_run [of w g c wid story] by (simp add: no_scripts_outcome_def run_status)

theorem no_scripts_fails_validation_witness:
  "results (self (run demo_globals True ''w1'' demo_story (demo_world\<lparr>walk := (\<lambda>d. [])\<rparr>)))
      ''jmx_files'' = Some (Paths [])
   \<and> status (steps (self (run demo_globals True ''w1'' demo_story
        (demo_world\<lparr>walk := (\<lambda>d. [])\<rparr>))) ! 4) = Failed
   \<and> wf_status (self (run demo_globals True ''w1'' demo_story
        (demo_world\<lparr>walk := (\<lambda>d. [])\<rparr>))) = Failed
   \<and> validated (os (run demo_globals True ''w1'' demo_story
        (demo_world\<lparr>walk := (\<lambda>d. [])\<rparr>))) = []"
proof -
  let ?w = "demo_world\<lparr>walk := (\<lambda>d. [])\<rparr>"
  have "happy demo_globals ?w demo_story"
    by (rule demo_happy) simp_all
  from happy_run [OF this, of True "''w1''"]
  have jf: "results (self (run demo_globals True ''w1'' demo_story ?w)) ''jmx_files''
      = Some (Paths [])"
    by (simp add: jmx_scan_def walk_files_def)
  from no_scripts_fails_validation [OF jf] jf show ?thesis
    by simp
qed

text \<open>
  C9. When the step-derivation stage is entered (the step before it completed), its
  module is there, \<open>os.makedirs\<close> succeeds and the child process exits with code 0, then,
  whatever the state of the output directory, the step is completed at the end of the run
  and \<open>results\<close> holds the list of files found and the debug dictionary with the directory
  contents; no exception leaves the scan. When the directory does not exist the contents
  are the empty list and the files found are the expected files that exist.
\<close>

theorem artifact_scan_total:
  "status (steps (self (run g c wid story w)) ! 1) = Completed \<Longrightarrow> test_steps_module g \<Longrightarrow>
   makedirs w ''TestSteps_Output'' = None \<Longrightarrow> child w ''TestSteps.py'' = Exited 0 out err \<Longrightarrow>
     status (steps (self (run g c wid story w)) ! 2) = Completed
     \<and> results (self (run g c wid story w)) ''output_files'' = Some (Paths (teststeps_found w))
     \<and> results (self (run g c wid story w)) ''teststeps_debug'' =
         Some (Debug \<lparr>working_directory = cwd w,
                      output_directory_exists = path_exists w ''TestSteps_Output'',
                      expected_files = expected_teststeps_files,
                      found_files = teststeps_found w,
                      actual_directory_contents = teststeps_actual w\<rparr>)
     \<and> (\<not> path_exists w ''TestSteps_Output'' \<longrightarrow>
          teststeps_actual w = []
          \<and> teststeps_found w = filter (path_exists w) expected_teststeps_files)"
  using teststeps_run [of g w out err c wid story]
  by (simp add: run_status teststeps_recorded_def teststeps_actual_def teststeps_found_def
      add_missing_def)

theorem artifact_scan_total_witness:
  "status (steps (self (run demo_globals True ''w1'' demo_story
        (demo_world\<lparr>path_exists := (\<lambda>p. False)\<rparr>))) ! 2) = Completed
   \<and> results (self (run demo_globals True ''w1'' demo_story
        (demo_world\<lparr>path_exists := (\<lambda>p. False)\<rparr>))) ''output_files'' = Some (Paths [])
   \<and> results (self (run demo_globals True ''w1'' demo_story
        (demo_world\<lparr>path_exists := (\<lambda>p. False)\<rparr>))) ''teststeps_debug'' =
         Some (Debug \<lparr>working_directory = ''/app'', output_directory_exists = False,
                      expected_files = expected_teststeps_files,
                      found_files = [], actual_directory_contents = []\<rparr>)"
proof -
  let ?w = "demo_world\<lparr>path_exists := (\<lambda>p. False)\<rparr>"
  let ?f = "self (run demo_globals True ''w1'' demo_story ?w)"
  have "happy demo_globals ?w demo_story"
    by (rule demo_happy) simp_all
  from happy_run [OF this, of True "''w1''"]
  have "sts ?f ! 1 = Completed"
    by (auto dest: take4_nth1)
  then have s1: "status (steps ?f ! 1) = Completed"
    by (simp add: run_status)
  have ch: "child ?w ''TestSteps.py'' = Exited 0 ''ok'' []" by simp
  have cw: "cwd ?w = ''/app''" by (simp add: demo_world_def)
  from artifact_scan_total [OF s1 _ _ ch] show ?thesis
    by (simp add: cw teststeps_found_def teststeps_actual_def add_missing_def)
qed

text \<open>
  C2, as stated, fails. In the example, with a validator that could not be constructed,
  step 5 ends failed and is running in no observable state: the guard of the last stage
  marks it failed while it is pending.
\<close>

theorem step_status_machine_counterexample:
  "never_running 4 (observable (run demo_globals False ''w1'' demo_story demo_world))
   \<and> status (steps (self (run demo_globals False ''w1'' demo_story demo_world)) ! 4) = Failed"
proof -
  have h: "happy demo_globals demo_world demo_story"
    by (rule demo_happy) simp_all
  have nv: "\<not> validator (init_workflow demo_globals False ''w1'' demo_story)"
    by (simp add: init_workflow_def)
  from no_validator_run [OF h nv] quiet_never_running [OF run_trace, of 4]
  show ?thesis by (simp add: run_status)
qed

text \<open>
  C2, amended. In every observable state of a run at most one step is running, and every
  step before it is completed or failed. Between two consecutive observable states a step
  keeps its status or moves from pending to running, from running to completed, from
  running to failed, or, when the collaborator of its stage is missing (the module did not
  load, the validator was not constructed), from pending to failed. A step that is
  completed or failed keeps that status in every later state.
\<close>

theorem step_status_machine:
  "(\<forall>wf\<in>set (observable (run g c wid story w)). \<forall>i<5.
      status (steps wf ! i) = Running \<longrightarrow>
        (\<forall>j<5. j \<noteq> i \<longrightarrow> status (steps wf ! j) \<noteq> Running)
        \<and> (\<forall>j<i. status (steps wf ! j) = Completed \<or> status (steps wf ! j) = Failed))
   \<and> (\<forall>n i. Suc n < length (observable (run g c wid story w)) \<and> i < 5 \<longrightarrow>
        step_move g (validator (init_workflow g c wid story)) i
          (status (steps (observable (run g c wid story w) ! n) ! i))
          (status (steps (observable (run g c wid story w) ! Suc n) ! i)))
   \<and> (\<forall>m n i. m \<le> n \<and> n < length (observable (run g c wid story w)) \<and> i < 5
        \<and> (status (steps (observable (run g c wid story w) ! m) ! i) = Completed
           \<or> status (steps (observable (run g c wid story w) ! m) ! i) = Failed) \<longrightarrow>
        status (steps (observable (run g c wid story w) ! n) ! i)
          = status (steps (observable (run g c wid story w) ! m) ! i))"
proof -
  let ?tr = "observable (run g c wid story w)"
  let ?v = "validator (init_workflow g c wid story)"
  have ok: "trace_ok g ?v ?tr" by (rule run_trace)
  have len: "\<And>wf. wf \<in> set ?tr \<Longrightarrow> length (steps wf) = 5"
    using ok by (auto simp: trace_ok_def sts_def)
  have st: "\<And>wf i. wf \<in> set ?tr \<Longrightarrow> i < 5 \<Longrightarrow> sts wf ! i = status (steps wf ! i)"
    using len by (simp add: sts_nth)
  have stn: "\<And>n i. n < length ?tr \<Longrightarrow> i < 5 \<Longrightarrow> sts (?tr ! n) ! i = status (steps (?tr ! n) ! i)"
    using st by simp
  have one: "\<forall>wf\<in>set ?tr. \<forall>i<5. status (steps wf ! i) = Running \<longrightarrow>
        (\<forall>j<5. j \<noteq> i \<longrightarrow> status (steps wf ! j) \<noteq> Running)
        \<and> (\<forall>j<i. status (steps wf ! j) = Completed \<or> status (steps wf ! j) = Failed)"
  proof (intro ballI allI impI)
    fix wf :: workflow and i :: nat assume wf: "wf \<in> set ?tr" and i: "i < 5" and r: "status (steps wf ! i) = Running"
    from ok wf have l: "length (sts wf) = 5" and ro: "running_ok (sts wf)"
      by (auto simp: trace_ok_def)
    from r st [OF wf i] have "sts wf ! i = Running" by simp
    with ro l i have "(\<forall>j<5. j \<noteq> i \<longrightarrow> sts wf ! j \<noteq> Running)
        \<and> (\<forall>j<i. sts wf ! j = Completed \<or> sts wf ! j = Failed)"
      unfolding running_ok_def by simp
    with st [OF wf] i show "(\<forall>j<5. j \<noteq> i \<longrightarrow> status (steps wf ! j) \<noteq> Running)
        \<and> (\<forall>j<i. status (steps wf ! j) = Completed \<or> status (steps wf ! j) = Failed)"
      by (metis less_trans)
  qed
  have two: "\<forall>n i. Suc n < length ?tr \<and> i < 5 \<longrightarrow>
        step_move g ?v i (status (steps (?tr ! n) ! i)) (status (steps (?tr ! Suc n) ! i))"
  proof (intro allI impI)
    fix n i :: nat assume a: "Suc n < length ?tr \<and> i < 5"
    with ok have "moves_ok g ?v (sts (?tr ! n)) (sts (?tr ! Suc n))"
      by (simp add: trace_ok_def successively_conv_nth)
    with a have "step_move g ?v i (sts (?tr ! n) ! i) (sts (?tr ! Suc n) ! i)"
      by (simp add: moves_ok_def)
    with a stn [of n i] stn [of "Suc n" i]
    show "step_move g ?v i (status (steps (?tr ! n) ! i)) (status (steps (?tr ! Suc n) ! i))"
      by simp
  qed
  have three: "\<forall>m n i. m \<le> n \<and> n < length ?tr \<and> i < 5
        \<and> (status (steps (?tr ! m) ! i) = Completed \<or> status (steps (?tr ! m) ! i) = Failed) \<longrightarrow>
        status (steps (?tr ! n) ! i) = status (steps (?tr ! m) ! i)"
  proof (intro allI impI)
    fix m n i :: nat
    assume a: "m \<le> n \<and> n < length ?tr \<and> i < 5
        \<and> (status (steps (?tr ! m) ! i) = Completed \<or> status (steps (?tr ! m) ! i) = Failed)"
    then have m: "m < length ?tr" by simp
    from a stn [OF m, of i] have "sts (?tr ! m) ! i = Completed \<or> sts (?tr ! m) ! i = Failed"
      by simp
    from trace_ok_terminal [OF ok _ this, of n] a
    have "sts (?tr ! n) ! i = sts (?tr ! m) ! i" by simp
    with a stn [OF m, of i] stn [of n i]
    show "status (steps (?tr ! n) ! i) = status (steps (?tr ! m) ! i)" by simp
  qed
  from one two three show ?thesis by blast
qed

theorem step_status_machine_witness:
  "status (steps (observable (run demo_globals True ''w1'' demo_story demo_world) ! 1) ! 0) = Pending
   \<and> status (steps (observable (run demo_globals True ''w1'' demo_story demo_world) ! 2) ! 0) = Running
   \<and> status (steps (observable (run demo_globals True ''w1'' demo_story demo_world) ! 2) ! 1)
        \<noteq> Running
   \<and> step_move demo_globals True 0 Pending Running"
proof -
  let ?tr = "observable (run demo_globals True ''w1'' demo_story demo_world)"
  from run_begins [of demo_globals True "''w1''" demo_story demo_world]
  obtain rest where tr: "?tr = [init_workflow demo_globals True ''w1'' demo_story,
      (init_workflow demo_globals True ''w1'' demo_story)\<lparr>wf_status := Running\<rparr>,
      update_step_status ((init_workflow demo_globals True ''w1'' demo_story)\<lparr>wf_status := Running\<rparr>)
        0 Running ''Analyzing user story and planning automation sequence...''] @ rest"
    unfolding begins_def by blast
  have s1: "status (steps (?tr ! 1) ! 0) = Pending"
    and s2: "status (steps (?tr ! 2) ! 0) = Running"
    by (simp_all add: tr init_workflow_def init_steps_def update_step_status_def)
  have in2: "?tr ! 2 \<in> set ?tr" and len: "Suc 1 < length ?tr"
    by (simp_all add: tr)
  from step_status_machine [of demo_globals True "''w1''" demo_story demo_world]
  have one: "\<forall>wf\<in>set ?tr. \<forall>i<5. status (steps wf ! i) = Running \<longrightarrow>
        (\<forall>j<5. j \<noteq> i \<longrightarrow> status (steps wf ! j) \<noteq> Running)
        \<and> (\<forall>j<i. status (steps wf ! j) = Completed \<or> status (steps wf ! j) = Failed)"
    and two: "\<forall>n i. Suc n < length ?tr \<and> i < 5 \<longrightarrow>
        step_move demo_globals (validator (init_workflow demo_globals True ''w1'' demo_story)) i
          (status (steps (?tr ! n) ! i)) (status (steps (?tr ! Suc n) ! i))"
    by blast+
  from one in2 s2 have "\<forall>j<5. j \<noteq> 0 \<longrightarrow> status (steps (?tr ! 2) ! j) \<noteq> Running"
    by (metis zero_less_numeral)
  then have a: "status (steps (?tr ! 2) ! 1) \<noteq> Running"
    by simp
  from two [rule_format, of 1 0] len s1 s2 have "step_move demo_globals True 0 Pending Running"
    by (simp add: demo_validator numeral_2_eq_2)
  with s1 s2 a show ?thesis by blast
qed







end
